theory Spec2Isabelle
  imports Complex_Main "HOL-Library.AList" "HOL-Library.Sublist"
    "HOL-Library.List_Lexorder" "HOL-Library.Char_ord"
begin

section \<open>Conventions of the embedding\<close>

text \<open>
  The development embeds the scoring and fusion core of the bug localizer:
  \<^verbatim>\<open>scripts/agents/judge_agent.py\<close>, \<^verbatim>\<open>scripts/agents/bug_type_classifier.py\<close>,
  \<^verbatim>\<open>scripts/agents/test_failure_agent.py\<close> and the class \<^verbatim>\<open>BM25Ranker\<close> of
  \<^verbatim>\<open>scripts/bug_localizer.py\<close>.

  \<^item> Python floats are modelled as mathematical reals: rounding, infinities and NaN are
    outside the model. The one exception is the consensus check of the judge, whose
    float operations are a parameter, because its flags compare a computed value with a
    threshold. Python's unbounded integers that only count are \<open>nat\<close>; the
    \<^verbatim>\<open>top_k\<close> argument, which may be negative, is \<open>int\<close>.
  \<^item> A Python \<^verbatim>\<open>dict\<close> that is iterated is an association list in insertion order; one
    that is only looked up is a map. A Python \<^verbatim>\<open>set\<close> is a HOL set.
  \<^item> Strings are ASCII character lists.
  \<^item> A method of a class is a function named \<open>Class_method\<close> that takes the object's
    state first and returns the new state where the method mutates it.
  \<^item> Exceptions are values: a function that can raise returns \<open>py_error + 'a\<close>.
  \<^item> The human-readable \<^verbatim>\<open>evidence\<close> and \<^verbatim>\<open>explanation\<close> strings of the judge are
    formatted floats; they feed no score, flag, order or rank and are left out of the
    records.
\<close>

datatype py_error = ZeroDivisionError | ValueError | KeyError

type_synonym weight_profile = "(string \<times> real) list"

text \<open>\<^verbatim>\<open>dict.get(key, default)\<close> on an association list.\<close>

definition dict_get :: "(string \<times> 'a) list \<Rightarrow> string \<Rightarrow> 'a \<Rightarrow> 'a" where
  "dict_get d k dflt = (case map_of d k of None \<Rightarrow> dflt | Some v \<Rightarrow> v)"

text \<open>\<^verbatim>\<open>m.get(key, default)\<close> on a map.\<close>

definition map_get :: "(string \<rightharpoonup> 'a) \<Rightarrow> string \<Rightarrow> 'a \<Rightarrow> 'a" where
  "map_get m k dflt = (case m k of None \<Rightarrow> dflt | Some v \<Rightarrow> v)"

section \<open>Bug type classifier\<close>

text \<open>
  The regular expressions of \<^verbatim>\<open>BUG_PATTERNS\<close> are kept as the strings of the source. A
  backslash cannot be written inside a string literal here, so \<open>BS\<close> stands for it:
  \<^verbatim>\<open>r'null\s+pointer'\<close> is \<open>''null'' @ BS @ ''s+pointer''\<close>.
\<close>

definition BS :: string where
  "BS = [CHR 0x5C]"

definition BUG_PATTERNS :: "(string \<times> string list) list" where
  "BUG_PATTERNS =
     [(''NPE'',
        [''NullPointerException'',
         ''NPE'',
         ''null'' @ BS @ ''s+pointer'',
         ''is'' @ BS @ ''s+null'',
         ''was'' @ BS @ ''s+null'',
         ''returns?'' @ BS @ ''s+null'',
         BS @ ''.get'' @ BS @ ''w*'' @ BS @ ''('' @ BS @ '')'' @ BS @ ''s+returns?'' @ BS @ ''s+null'',
         ''dereferenc'']),
      (''CCE'',
        [''ClassCastException'',
         ''cannot'' @ BS @ ''s+be'' @ BS @ ''s+cast'',
         ''incompatible'' @ BS @ ''s+types?'',
         ''type'' @ BS @ ''s+mismatch'',
         ''wrong'' @ BS @ ''s+type'',
         ''cast'' @ BS @ ''s+fail'']),
      (''CME'',
        [''ConcurrentModificationException'',
         ''concurrent'' @ BS @ ''s+modification'',
         ''modified'' @ BS @ ''s+while'' @ BS @ ''s+iterating'',
         ''iterator.*invalid'',
         ''collection.*changed'']),
      (''AIOBE'',
        [''ArrayIndexOutOfBoundsException'',
         ''IndexOutOfBoundsException'',
         ''index'' @ BS @ ''s+out'' @ BS @ ''s+of'' @ BS @ ''s+bounds'',
         ''array'' @ BS @ ''s+index'',
         ''invalid'' @ BS @ ''s+index'']),
      (''IAE'',
        [''IllegalArgumentException'',
         ''illegal'' @ BS @ ''s+argument'',
         ''invalid'' @ BS @ ''s+argument'',
         ''bad'' @ BS @ ''s+argument'',
         ''argument.*invalid'']),
      (''ISE'',
        [''IllegalStateException'',
         ''illegal'' @ BS @ ''s+state'',
         ''invalid'' @ BS @ ''s+state'',
         ''wrong'' @ BS @ ''s+state'',
         ''state.*invalid'']),
      (''IOE'',
        [''IOException'',
         ''FileNotFoundException'',
         ''file'' @ BS @ ''s+not'' @ BS @ ''s+found'',
         ''cannot'' @ BS @ ''s+read'',
         ''cannot'' @ BS @ ''s+write'',
         ''stream.*closed''])]"

definition WEIGHT_PROFILES :: "(string \<times> weight_profile) list" where
  "WEIGHT_PROFILES =
     [(''NPE'',
        [(''stack_trace'', 0.35), (''bm25'', 0.25), (''pattern'', 0.25), (''test'', 0.15)]),
      (''CCE'',
        [(''stack_trace'', 0.30), (''bm25'', 0.30), (''pattern'', 0.25), (''test'', 0.15)]),
      (''CME'',
        [(''stack_trace'', 0.35), (''bm25'', 0.20), (''pattern'', 0.30), (''test'', 0.15)]),
      (''AIOBE'',
        [(''stack_trace'', 0.40), (''bm25'', 0.25), (''pattern'', 0.20), (''test'', 0.15)]),
      (''IAE'',
        [(''stack_trace'', 0.30), (''bm25'', 0.30), (''pattern'', 0.20), (''test'', 0.20)]),
      (''ISE'',
        [(''stack_trace'', 0.30), (''bm25'', 0.25), (''pattern'', 0.25), (''test'', 0.20)]),
      (''IOE'',
        [(''stack_trace'', 0.35), (''bm25'', 0.30), (''pattern'', 0.15), (''test'', 0.20)]),
      (''GENERIC'',
        [(''stack_trace'', 0.35), (''bm25'', 0.30), (''pattern'', 0.20), (''test'', 0.15)])]"

record BugClassification =
  bug_type :: string
  confidence :: real
  weights :: weight_profile
  indicators :: "string list"

text \<open>\<^verbatim>\<open>d[key]\<close>: a missing key raises \<^verbatim>\<open>KeyError\<close>.\<close>

definition dict_lookup :: "(string \<times> 'a) list \<Rightarrow> string \<Rightarrow> py_error + 'a" where
  "dict_lookup d k = (case map_of d k of None \<Rightarrow> Inl KeyError | Some v \<Rightarrow> Inr v)"

text \<open>
  The inner loop of \<^verbatim>\<open>classify\<close> over the patterns of one bug type. Python's regular
  expression engine is not part of the repository: \<open>findall pattern text\<close> stands for
  \<^verbatim>\<open>re.compile(pattern, re.IGNORECASE).findall(text)\<close>.
\<close>

definition score_bug_type ::
  "(string \<Rightarrow> string \<Rightarrow> string list) \<Rightarrow> string \<Rightarrow> string list \<Rightarrow> nat \<times> string list" where
  "score_bug_type findall bug_report patterns =
     fold (\<lambda>pattern (type_score, type_indicators).
             let matches = findall pattern bug_report in
             if matches \<noteq> []
             then (type_score + length matches, type_indicators @ take 3 matches)
             else (type_score, type_indicators))
          patterns (0, [])"

text \<open>
  \<^verbatim>\<open>max(scores, key=scores.get)\<close>: the first key, in dictionary order, whose value is
  maximal; \<^verbatim>\<open>max\<close> of an empty dictionary raises \<^verbatim>\<open>ValueError\<close>.
\<close>

definition max_key :: "(string \<times> nat) list \<Rightarrow> py_error + string" where
  "max_key scores =
     (case scores of
        [] \<Rightarrow> Inl ValueError
      | kv # rest \<Rightarrow>
          Inr (fst (fold (\<lambda>(k, v) (bk, bv). if v > bv then (k, v) else (bk, bv)) rest kv)))"

definition BugTypeClassifier_classify ::
  "(string \<Rightarrow> string \<Rightarrow> string list) \<Rightarrow> string \<Rightarrow> py_error + BugClassification" where
  "BugTypeClassifier_classify findall bug_report =
     (let scores = map (\<lambda>(bt, patterns). (bt, fst (score_bug_type findall bug_report patterns)))
                       BUG_PATTERNS;
          indicators = map (\<lambda>(bt, patterns). (bt, snd (score_bug_type findall bug_report patterns)))
                       BUG_PATTERNS
      in if \<not> list_ex (\<lambda>(bt, v). v \<noteq> 0) scores
         then (case dict_lookup WEIGHT_PROFILES ''GENERIC'' of
                 Inl e \<Rightarrow> Inl e
               | Inr w \<Rightarrow> Inr \<lparr>bug_type = ''GENERIC'', confidence = 0.5, weights = w,
                              indicators = []\<rparr>)
         else
           (case max_key scores of
              Inl e \<Rightarrow> Inl e
            | Inr best_type \<Rightarrow>
                let total_score = sum_list (map snd scores) in
                (case dict_lookup scores best_type of
                   Inl e \<Rightarrow> Inl e
                 | Inr best_score \<Rightarrow>
                     let conf = (if total_score > 0 then real best_score / real total_score
                                 else 0.5)
                     in (case dict_lookup WEIGHT_PROFILES best_type of
                           Inl e \<Rightarrow> Inl e
                         | Inr w \<Rightarrow>
                             (case dict_lookup indicators best_type of
                                Inl e \<Rightarrow> Inl e
                              | Inr ind \<Rightarrow>
                                  Inr \<lparr>bug_type = best_type, confidence = min conf 1.0,
                                       weights = w, indicators = ind\<rparr>)))))"

text \<open>
  \<^verbatim>\<open>adjust_weights\<close>: the blend with the generic profile. No function of the repository
  calls it; \<^verbatim>\<open>classify\<close> and both of its callers use the profile of the table as it is.
\<close>

fun adjust_weights_loop ::
  "weight_profile \<Rightarrow> real \<Rightarrow> weight_profile \<Rightarrow> weight_profile \<Rightarrow> py_error + weight_profile" where
  "adjust_weights_loop generic conf [] adjusted = Inr adjusted"
| "adjust_weights_loop generic conf ((signal, w) # rest) adjusted =
     (case dict_lookup generic signal of
        Inl e \<Rightarrow> Inl e
      | Inr g \<Rightarrow>
          adjust_weights_loop generic conf rest
            (AList.update signal (conf * w + (1 - conf) * g) adjusted))"

definition BugTypeClassifier_adjust_weights :: "weight_profile \<Rightarrow> real \<Rightarrow> py_error + weight_profile" where
  "BugTypeClassifier_adjust_weights base_weights conf =
     (if conf \<ge> 0.8 then Inr base_weights
      else (case dict_lookup WEIGHT_PROFILES ''GENERIC'' of
              Inl e \<Rightarrow> Inl e
            | Inr generic \<Rightarrow> adjust_weights_loop generic conf base_weights []))"

text \<open>
  The matches that Python's \<^verbatim>\<open>re\<close> finds, ignoring case, for the patterns of
  \<^verbatim>\<open>BUG_PATTERNS\<close> in the report \<^verbatim>\<open>NullPointerException IOException\<close>: the first pattern of
  \<^verbatim>\<open>NPE\<close> and the first pattern of \<^verbatim>\<open>IOE\<close> match once each, no other pattern matches the
  report.
\<close>

definition findall_in_example_report :: "string \<Rightarrow> string \<Rightarrow> string list" where
  "findall_in_example_report pattern text =
     (if text = ''NullPointerException IOException'' \<and> pattern = ''NullPointerException''
      then [''NullPointerException'']
      else if text = ''NullPointerException IOException'' \<and> pattern = ''IOException''
      then [''IOException'']
      else [])"

section \<open>Judge agent: data\<close>

record AgentScore =
  agent_name :: string
  score :: real
  confidence :: real

record CandidateJudgment =
  class_name :: string
  final_score :: real
  agent_scores :: "(string \<times> AgentScore) list"
  consensus :: bool
  conflict_resolved :: bool
  rank :: nat

record JudgmentResult =
  candidates :: "CandidateJudgment list"
  bug_type :: string
  weights_used :: weight_profile
  consensus_rate :: real

record JudgeAgent =
  weights :: weight_profile

definition DEFAULT_WEIGHTS :: weight_profile where
  "DEFAULT_WEIGHTS =
     [(''stack_trace'', 0.35), (''bm25'', 0.30), (''pattern'', 0.20), (''test'', 0.15)]"

definition CONSENSUS_BONUS :: real where
  "CONSENSUS_BONUS = 0.10"

section \<open>Judge agent: operations\<close>

text \<open>
  \<^verbatim>\<open>_normalize_weights\<close>: the weights are divided by their total only when the total is
  positive; otherwise they stay as they are and nothing is raised.
\<close>

definition JudgeAgent_normalize_weights :: "JudgeAgent \<Rightarrow> JudgeAgent" where
  "JudgeAgent_normalize_weights self =
     (let total = sum_list (map snd (weights self)) in
      if total > 0
      then self\<lparr>weights := map (\<lambda>(k, v). (k, v / total)) (weights self)\<rparr>
      else self)"

text \<open>
  \<^verbatim>\<open>__init__(weights=None)\<close>: \<^verbatim>\<open>weights or DEFAULT_WEIGHTS.copy()\<close> takes the default for
  \<^verbatim>\<open>None\<close> and for the empty dictionary.
\<close>

definition JudgeAgent_init :: "weight_profile option \<Rightarrow> JudgeAgent" where
  "JudgeAgent_init ws =
     JudgeAgent_normalize_weights
       \<lparr>weights = (case ws of None \<Rightarrow> DEFAULT_WEIGHTS
                    | Some w \<Rightarrow> if w = [] then DEFAULT_WEIGHTS else w)\<rparr>"


text \<open>
  The float operations of \<^verbatim>\<open>_check_consensus\<close>. Its result depends on comparing a
  computed standard deviation with a threshold, and a rounding error of one unit in the
  last place can turn the comparison. So the operations are a parameter of which nothing
  is assumed: \<open>fl_sum\<close> is \<^verbatim>\<open>sum\<close> over floats, \<open>fl_sub\<close> is \<^verbatim>\<open>-\<close>, \<open>fl_pow2\<close> is \<^verbatim>\<open>** 2\<close>,
  \<open>fl_div\<close> is \<^verbatim>\<open>/\<close> (by the positive integer \<^verbatim>\<open>len(scores)\<close>) and \<open>fl_sqrt\<close> is \<^verbatim>\<open>math.sqrt\<close>.
  What is proved of the flags holds for IEEE doubles with any rounding, and for
  \<open>exact_arith\<close>, the operations of the reals.
\<close>

record float_arith =
  fl_sum :: "real list \<Rightarrow> real"
  fl_sub :: "real \<Rightarrow> real \<Rightarrow> real"
  fl_pow2 :: "real \<Rightarrow> real"
  fl_div :: "real \<Rightarrow> real \<Rightarrow> real"
  fl_sqrt :: "real \<Rightarrow> real"

definition exact_arith :: float_arith where
  "exact_arith =
     \<lparr>fl_sum = sum_list, fl_sub = (\<lambda>x y. x - y), fl_pow2 = (\<lambda>x. x\<^sup>2),
      fl_div = (\<lambda>x y. x / y), fl_sqrt = sqrt\<rparr>"

text \<open>
  The literals \<^verbatim>\<open>0.2\<close> and \<^verbatim>\<open>0.4\<close> of \<^verbatim>\<open>_check_consensus\<close> are the doubles nearest to 1/5 and
  2/5; both lie just above the decimal.
\<close>

definition double_0_2 :: real where
  "double_0_2 = 3602879701896397 / 2 ^ 54"

definition double_0_4 :: real where
  "double_0_4 = 3602879701896397 / 2 ^ 53"

text \<open>
  \<^verbatim>\<open>_check_consensus\<close>: the scores kept are the strictly positive ones; with none of
  them both flags are false. The result is the pair (consensus, conflict resolved).
\<close>

definition JudgeAgent_check_consensus ::
  "float_arith \<Rightarrow> (string \<times> AgentScore) list \<Rightarrow> bool \<times> bool" where
  "JudgeAgent_check_consensus fa ascores =
     (let scores = filter (\<lambda>s. s > 0) (map (\<lambda>(k, s). score s) ascores) in
      if scores = [] then (False, False)
      else
        let mean_score = fl_div fa (fl_sum fa scores) (real (length scores));
            variance =
              fl_div fa (fl_sum fa (map (\<lambda>s. fl_pow2 fa (fl_sub fa s mean_score)) scores))
                        (real (length scores));
            std_dev = (if variance > 0 then fl_sqrt fa variance else 0)
        in if std_dev < double_0_2 then (True, False)
           else if std_dev > double_0_4 then (False, True)
           else (False, False))"

text \<open>
  \<^verbatim>\<open>_calculate_final_score\<close>: the loop over the signals accumulates
  weight * score * confidence; the only clamp is \<^verbatim>\<open>min(weighted_sum, 1.0)\<close>.
\<close>

definition JudgeAgent_calculate_final_score ::
  "JudgeAgent \<Rightarrow> (string \<times> AgentScore) list \<Rightarrow> bool \<Rightarrow> bool \<Rightarrow> real" where
  "JudgeAgent_calculate_final_score self ascores cons confl =
     (let weighted_sum0 =
            fold (\<lambda>(signal, score_obj) acc.
                    acc + dict_get (weights self) signal 0 * score score_obj * confidence score_obj)
                 ascores 0;
          weighted_sum1 = (if cons then weighted_sum0 * (1 + CONSENSUS_BONUS) else weighted_sum0);
          weighted_sum2 = (if confl then weighted_sum1 * 0.95 else weighted_sum1)
      in min weighted_sum2 1.0)"

text \<open>The four \<^verbatim>\<open>AgentScore\<close> objects gathered for one candidate, in dictionary order.\<close>

definition gather_agent_scores ::
  "(string \<rightharpoonup> real) \<Rightarrow> (string \<rightharpoonup> real) \<Rightarrow> (string \<rightharpoonup> real) \<Rightarrow> (string \<rightharpoonup> real) \<Rightarrow>
   string \<Rightarrow> (string \<times> AgentScore) list" where
  "gather_agent_scores stack_trace_scores bm25_scores pattern_scores test_scores cn =
     [(''stack_trace'',
         \<lparr>agent_name = ''StackTraceAgent'',
          score = map_get stack_trace_scores cn 0.0,
          confidence = (if stack_trace_scores cn \<noteq> None then 1.0 else 0.5)\<rparr>),
      (''bm25'',
         \<lparr>agent_name = ''BM25Agent'', score = map_get bm25_scores cn 0.0, confidence = 0.8\<rparr>),
      (''pattern'',
         \<lparr>agent_name = ''PatternAgent'', score = map_get pattern_scores cn 0.0,
          confidence = 0.7\<rparr>),
      (''test'',
         \<lparr>agent_name = ''TestAgent'', score = map_get test_scores cn 0.0, confidence = 0.6\<rparr>)]"

text \<open>The body of the loop of \<^verbatim>\<open>judge\<close> over the candidates; the rank is still 0.\<close>

definition judge_candidate ::
  "float_arith \<Rightarrow> JudgeAgent \<Rightarrow> (string \<rightharpoonup> real) \<Rightarrow> (string \<rightharpoonup> real) \<Rightarrow> (string \<rightharpoonup> real) \<Rightarrow>
   (string \<rightharpoonup> real) \<Rightarrow> string \<Rightarrow> CandidateJudgment" where
  "judge_candidate fa self stack_trace_scores bm25_scores pattern_scores test_scores cn =
     (let ascores = gather_agent_scores stack_trace_scores bm25_scores pattern_scores test_scores cn;
          (cons, confl) = JudgeAgent_check_consensus fa ascores
      in \<lparr>class_name = cn,
          final_score = JudgeAgent_calculate_final_score self ascores cons confl,
          agent_scores = ascores,
          consensus = cons,
          conflict_resolved = confl,
          rank = 0\<rparr>)"

text \<open>
  \<^verbatim>\<open>list.sort(key=..., reverse=True)\<close>: Python reverses the list, sorts it stably in
  ascending key order and reverses the result, so that elements with equal keys keep
  their original order.
\<close>

definition sort_reverse :: "('a \<Rightarrow> real) \<Rightarrow> 'a list \<Rightarrow> 'a list" where
  "sort_reverse key xs = rev (sort_key key (rev xs))"

text \<open>\<^verbatim>\<open>for i, judgment in enumerate(judgments): judgment.rank = i + 1\<close>\<close>

definition assign_ranks :: "CandidateJudgment list \<Rightarrow> CandidateJudgment list" where
  "assign_ranks js = map (\<lambda>(i, j). j\<lparr>rank := i + 1\<rparr>) (enumerate 0 js)"

definition JudgeAgent_judge ::
  "float_arith \<Rightarrow> JudgeAgent \<Rightarrow> string list \<Rightarrow> (string \<rightharpoonup> real) \<Rightarrow> (string \<rightharpoonup> real) \<Rightarrow>
   (string \<rightharpoonup> real) \<Rightarrow> (string \<rightharpoonup> real) \<Rightarrow> string \<Rightarrow> JudgmentResult" where
  "JudgeAgent_judge fa self cands stack_trace_scores bm25_scores pattern_scores test_scores bt =
     (let judgments =
            map (judge_candidate fa self stack_trace_scores bm25_scores pattern_scores test_scores)
                cands;
          consensus_count = length (filter consensus judgments);
          ranked = assign_ranks (sort_reverse final_score judgments)
      in \<lparr>candidates = ranked,
          bug_type = bt,
          weights_used = weights self,
          consensus_rate =
            (if cands \<noteq> [] then real consensus_count / real (length cands) else 0.0)\<rparr>)"


section \<open>Judge agent: the fusion and consensus rules in closed form\<close>

text \<open>
  The rules as the specification words them, to be compared with the loops above: the four
  raw signal scores of a candidate, the weighted sum over the four signals, the
  multiplier for the two flags, the standard deviation as the float operations \<open>fa\<close>
  compute it, and the population standard deviation of the reals.
\<close>

definition signal_scores ::
  "(string \<rightharpoonup> real) \<Rightarrow> (string \<rightharpoonup> real) \<Rightarrow> (string \<rightharpoonup> real) \<Rightarrow> (string \<rightharpoonup> real) \<Rightarrow>
   string \<Rightarrow> real list" where
  "signal_scores st bm pt ts cn =
     [map_get st cn 0, map_get bm cn 0, map_get pt cn 0, map_get ts cn 0]"

definition spec_weighted_sum ::
  "JudgeAgent \<Rightarrow> (string \<rightharpoonup> real) \<Rightarrow> (string \<rightharpoonup> real) \<Rightarrow> (string \<rightharpoonup> real) \<Rightarrow>
   (string \<rightharpoonup> real) \<Rightarrow> string \<Rightarrow> real" where
  "spec_weighted_sum self st bm pt ts cn =
     dict_get (weights self) ''stack_trace'' 0 * map_get st cn 0
         * (if st cn \<noteq> None then 1.0 else 0.5)
     + dict_get (weights self) ''bm25'' 0 * map_get bm cn 0 * 0.8
     + dict_get (weights self) ''pattern'' 0 * map_get pt cn 0 * 0.7
     + dict_get (weights self) ''test'' 0 * map_get ts cn 0 * 0.6"

definition spec_multiplier :: "bool \<Rightarrow> bool \<Rightarrow> real" where
  "spec_multiplier cons confl = (if cons then 1.10 else 1) * (if confl then 0.95 else 1)"

definition computed_std_dev :: "float_arith \<Rightarrow> real list \<Rightarrow> real" where
  "computed_std_dev fa xs =
     (let m = fl_div fa (fl_sum fa xs) (real (length xs));
          v = fl_div fa (fl_sum fa (map (\<lambda>x. fl_pow2 fa (fl_sub fa x m)) xs)) (real (length xs))
      in if v > 0 then fl_sqrt fa v else 0)"

definition mean :: "real list \<Rightarrow> real" where
  "mean xs = sum_list xs / real (length xs)"

definition population_stddev :: "real list \<Rightarrow> real" where
  "population_stddev xs = sqrt (sum_list (map (\<lambda>x. (x - mean xs)\<^sup>2) xs) / real (length xs))"

section \<open>BM25 ranker: tokenizer\<close>

text \<open>
  \<^verbatim>\<open>_tokenize\<close> on ASCII text. The character classes \<^verbatim>\<open>[a-z]\<close>, \<^verbatim>\<open>[A-Z]\<close> and \<^verbatim>\<open>\w\<close> of the
  regular expressions are the predicates below.
\<close>

definition is_lower :: "char \<Rightarrow> bool" where
  "is_lower c \<longleftrightarrow> CHR ''a'' \<le> c \<and> c \<le> CHR ''z''"

definition is_upper :: "char \<Rightarrow> bool" where
  "is_upper c \<longleftrightarrow> CHR ''A'' \<le> c \<and> c \<le> CHR ''Z''"

definition is_digit :: "char \<Rightarrow> bool" where
  "is_digit c \<longleftrightarrow> CHR ''0'' \<le> c \<and> c \<le> CHR ''9''"

definition is_word_char :: "char \<Rightarrow> bool" where
  "is_word_char c \<longleftrightarrow> is_lower c \<or> is_upper c \<or> is_digit c \<or> c = CHR ''_''"

definition to_lower :: "char \<Rightarrow> char" where
  "to_lower c = (if is_upper c then char_of (of_char c + (32 :: nat)) else c)"

text \<open>
  \<^verbatim>\<open>re.sub(r'([a-z])([A-Z])', r'\1 \2', text)\<close>: a space between a lower-case letter and
  the upper-case letter that follows it.
\<close>

fun split_lower_upper :: "string \<Rightarrow> string" where
  "split_lower_upper (x # y # r) =
     (if is_lower x \<and> is_upper y then x # CHR '' '' # split_lower_upper (y # r)
      else x # split_lower_upper (y # r))"
| "split_lower_upper xs = xs"

text \<open>
  \<^verbatim>\<open>re.sub(r'([A-Z]+)([A-Z][a-z])', r'\1 \2', text)\<close>: the greedy first group backtracks by
  one letter, so the space goes before the last letter of a run of two or more upper-case
  letters that a lower-case letter follows, that is between \<open>x\<close> and \<open>y\<close> wherever
  \<open>x\<close> and \<open>y\<close> are upper-case and the next character is lower-case.
\<close>

fun split_upper_run :: "string \<Rightarrow> string" where
  "split_upper_run (x # y # z # r) =
     (if is_upper x \<and> is_upper y \<and> is_lower z then x # CHR '' '' # split_upper_run (y # z # r)
      else x # split_upper_run (y # z # r))"
| "split_upper_run xs = xs"

text \<open>
  \<^verbatim>\<open>re.findall(r'\w+', text)\<close>: the maximal runs of word characters, from left to right;
  \<open>cur\<close> is the run being read.
\<close>

fun findall_words :: "string \<Rightarrow> string \<Rightarrow> string list" where
  "findall_words [] cur = (if cur = [] then [] else [cur])"
| "findall_words (c # cs) cur =
     (if is_word_char c then findall_words cs (cur @ [c])
      else (if cur = [] then [] else [cur]) @ findall_words cs [])"

definition tokenize :: "string \<Rightarrow> string list" where
  "tokenize text =
     (let text1 = split_lower_upper text;
          text2 = split_upper_run text1;
          text3 = map (\<lambda>c. to_lower (if c = CHR ''_'' then CHR '' '' else c)) text2
      in filter (\<lambda>w. length w \<ge> 2) (findall_words text3 []))"

section \<open>BM25 ranker: index and scores\<close>

definition BM25_K1 :: real where
  "BM25_K1 = 1.2"

definition BM25_B :: real where
  "BM25_B = 0.75"

type_synonym counter = "string \<rightharpoonup> nat"

text \<open>\<^verbatim>\<open>collections.Counter(terms)\<close>: the terms that occur, each with its count.\<close>

definition Counter :: "string list \<Rightarrow> counter" where
  "Counter terms = (\<lambda>t. if t \<in> set terms then Some (count_list terms t) else None)"

text \<open>
  The state of a \<^verbatim>\<open>BM25Ranker\<close>. The fields \<^verbatim>\<open>b\<close> and \<^verbatim>\<open>N\<close> of the source are \<open>bm25_b\<close> and
  \<open>bm25_N\<close>, so that the single letters stay free for variables. \<^verbatim>\<open>doc_terms\<close> is iterated
  by \<^verbatim>\<open>rank\<close> and keeps its insertion order. \<^verbatim>\<open>doc_metadata\<close> takes no part in any score
  and is left out.
\<close>

record BM25Ranker =
  k1 :: real
  bm25_b :: real
  doc_freqs :: "string \<rightharpoonup> nat"
  doc_lens :: "string \<rightharpoonup> nat"
  avgdl :: real
  bm25_N :: nat
  doc_terms :: "(string \<times> counter) list"

definition BM25Ranker_init :: "real \<Rightarrow> real \<Rightarrow> BM25Ranker" where
  "BM25Ranker_init k1_arg b_arg =
     \<lparr>k1 = k1_arg, bm25_b = b_arg, doc_freqs = Map.empty, doc_lens = Map.empty, avgdl = 0,
      bm25_N = 0, doc_terms = []\<rparr>"

text \<open>
  The body of the loop of \<^verbatim>\<open>fit\<close> over the documents; a document is its id and the text
  \<^verbatim>\<open>doc_info.get('text', '')\<close>. The second component is the local \<^verbatim>\<open>total_len\<close>.
\<close>

definition fit_document :: "string \<times> string \<Rightarrow> BM25Ranker \<times> nat \<Rightarrow> BM25Ranker \<times> nat" where
  "fit_document = (\<lambda>(doc_id, text) (self, total_len).
     let terms = tokenize text;
         self1 = self\<lparr>doc_terms := AList.update doc_id (Counter terms) (doc_terms self),
                      doc_lens := (doc_lens self)(doc_id \<mapsto> length terms)\<rparr>;
         self2 = self1\<lparr>doc_freqs :=
                   fold (\<lambda>term df. df(term \<mapsto> map_get df term 0 + 1)) (remdups terms)
                        (doc_freqs self1)\<rparr>
     in (self2, total_len + length terms))"

text \<open>
  \<^verbatim>\<open>fit\<close>: \<^verbatim>\<open>documents\<close> is a dictionary, here the list of its items in insertion order
  (the keys of a dictionary are distinct).
\<close>

definition BM25Ranker_fit :: "BM25Ranker \<Rightarrow> (string \<times> string) list \<Rightarrow> BM25Ranker" where
  "BM25Ranker_fit self documents =
     (let self0 = self\<lparr>bm25_N := length documents\<rparr>;
          (self1, total_len) = fold fit_document documents (self0, 0)
      in self1\<lparr>avgdl := (if bm25_N self1 > 0 then real total_len / real (bm25_N self1) else 0)\<rparr>)"

text \<open>
  \<^verbatim>\<open>_idf\<close>. \<^verbatim>\<open>math.log\<close> raises \<^verbatim>\<open>ValueError\<close> on an argument that is not positive; the
  divisor \<open>df + 0.5\<close> is never zero.
\<close>

definition BM25Ranker_idf :: "BM25Ranker \<Rightarrow> string \<Rightarrow> py_error + real" where
  "BM25Ranker_idf self term =
     (let df = map_get (doc_freqs self) term 0 in
      if df = 0 then Inr 0
      else
        let x = (real (bm25_N self) - real df + 0.5) / (real df + 0.5) + 1
        in if x \<le> 0 then Inl ValueError else Inr (ln x))"

text \<open>
  What one turn of the loop of \<^verbatim>\<open>score\<close> adds for a term that occurs \<open>tf\<close> times in a
  document of \<open>doc_len\<close> tokens. Both divisions raise \<^verbatim>\<open>ZeroDivisionError\<close> on a zero
  divisor.
\<close>

definition term_score :: "BM25Ranker \<Rightarrow> nat \<Rightarrow> nat \<Rightarrow> string \<Rightarrow> py_error + real" where
  "term_score self doc_len tf term =
     (case BM25Ranker_idf self term of
        Inl e \<Rightarrow> Inl e
      | Inr idf \<Rightarrow>
          let numerator = real tf * (k1 self + 1) in
          if avgdl self = 0 then Inl ZeroDivisionError
          else
            let denominator =
                  real tf + k1 self * (1 - bm25_b self + bm25_b self * real doc_len / avgdl self)
            in if denominator = 0 then Inl ZeroDivisionError
               else Inr (idf * (numerator / denominator)))"

fun score_loop :: "BM25Ranker \<Rightarrow> counter \<Rightarrow> nat \<Rightarrow> string list \<Rightarrow> real \<Rightarrow> py_error + real" where
  "score_loop self doc_term_freqs doc_len [] acc = Inr acc"
| "score_loop self doc_term_freqs doc_len (term # rest) acc =
     (case doc_term_freqs term of
        None \<Rightarrow> score_loop self doc_term_freqs doc_len rest acc
      | Some tf \<Rightarrow>
          (case term_score self doc_len tf term of
             Inl e \<Rightarrow> Inl e
           | Inr c \<Rightarrow> score_loop self doc_term_freqs doc_len rest (acc + c)))"

text \<open>\<^verbatim>\<open>score\<close> after the query has been tokenized.\<close>

definition score_terms :: "BM25Ranker \<Rightarrow> string list \<Rightarrow> string \<Rightarrow> py_error + real" where
  "score_terms self query_terms doc_id =
     (let doc_term_freqs = dict_get (doc_terms self) doc_id Map.empty;
          doc_len = map_get (doc_lens self) doc_id 0
      in if doc_len = 0 then Inr 0.0
         else score_loop self doc_term_freqs doc_len query_terms 0.0)"

definition BM25Ranker_score :: "BM25Ranker \<Rightarrow> string \<Rightarrow> string \<Rightarrow> py_error + real" where
  "BM25Ranker_score self query doc_id = score_terms self (tokenize query) doc_id"

text \<open>\<^verbatim>\<open>xs[:k]\<close>: a negative \<open>k\<close> counts from the end.\<close>

definition slice_to :: "'a list \<Rightarrow> int \<Rightarrow> 'a list" where
  "slice_to xs k = (if k \<ge> 0 then take (nat k) xs else take (length xs - nat (- k)) xs)"

fun rank_loop ::
  "BM25Ranker \<Rightarrow> string \<Rightarrow> string list \<Rightarrow> (string \<times> real) list \<Rightarrow> py_error + (string \<times> real) list"
  where
  "rank_loop self query [] scores = Inr scores"
| "rank_loop self query (doc_id # rest) scores =
     (case BM25Ranker_score self query doc_id of
        Inl e \<Rightarrow> Inl e
      | Inr s \<Rightarrow> rank_loop self query rest (if s > 0 then scores @ [(doc_id, s)] else scores))"

text \<open>\<^verbatim>\<open>rank\<close>: \<^verbatim>\<open>scores.sort(key=lambda x: -x[1])\<close> is a stable sort on the negated score.\<close>

definition BM25Ranker_rank ::
  "BM25Ranker \<Rightarrow> string \<Rightarrow> int \<Rightarrow> py_error + (string \<times> real) list" where
  "BM25Ranker_rank self query top_k =
     (case rank_loop self query (map fst (doc_terms self)) [] of
        Inl e \<Rightarrow> Inl e
      | Inr scores \<Rightarrow> Inr (slice_to (sort_key (\<lambda>x. - snd x) scores) top_k))"

section \<open>BM25 ranker: auxiliary notions for the proofs\<close>

text \<open>
  The invariant of the loop of \<^verbatim>\<open>fit\<close> after \<open>j\<close> documents: every stored length is at most
  \<^verbatim>\<open>total_len\<close>; every counted term of an indexed document occurs at least once, has a
  document frequency, and its document has a positive length; every document frequency
  lies between 1 and \<open>j\<close>.
\<close>

definition fit_inv :: "nat \<Rightarrow> BM25Ranker \<times> nat \<Rightarrow> bool" where
  "fit_inv j st \<longleftrightarrow>
     (case st of (r, total_len) \<Rightarrow>
        (\<forall>d n. doc_lens r d = Some n \<longrightarrow> n \<le> total_len \<and> 0 < j)
        \<and> (\<forall>d c t tf. map_of (doc_terms r) d = Some c \<longrightarrow> c t = Some tf \<longrightarrow>
              1 \<le> tf \<and> doc_freqs r t \<noteq> None \<and> (\<exists>n. doc_lens r d = Some n \<and> 0 < n))
        \<and> (\<forall>t n. doc_freqs r t = Some n \<longrightarrow> 1 \<le> n \<and> n \<le> j))"

text \<open>
  The list that the loop of \<^verbatim>\<open>rank\<close> builds when no call of \<^verbatim>\<open>score\<close> raises: the documents
  with a positive score, in the order given, each with its score.
\<close>

definition positive_scores :: "BM25Ranker \<Rightarrow> string \<Rightarrow> string list \<Rightarrow> (string \<times> real) list" where
  "positive_scores self query doc_ids =
     List.map_filter
       (\<lambda>doc_id. case BM25Ranker_score self query doc_id of
                    Inl e \<Rightarrow> None
                  | Inr s \<Rightarrow> if s > 0 then Some (doc_id, s) else None)
       doc_ids"

section \<open>Test failure agent\<close>

text \<open>
  The state of a \<^verbatim>\<open>TestFailureAgent\<close> that the coverage score reads: \<^verbatim>\<open>_class_to_tests\<close> and
  \<^verbatim>\<open>_co_occurrence\<close> (an identifier cannot start with an underscore here). Both are only
  looked up. \<^verbatim>\<open>_build_index\<close>, which fills them from parsed test files, is not modelled: the
  score is stated for every content of the two dictionaries.
\<close>

record TestFailureAgent =
  class_to_tests :: "string \<rightharpoonup> string list"
  co_occurrence :: "string \<rightharpoonup> string set"

text \<open>\<^verbatim>\<open>TestFailureAgent()\<close> without a code structure: both dictionaries are empty.\<close>

definition TestFailureAgent_init :: TestFailureAgent where
  "TestFailureAgent_init = \<lparr>class_to_tests = Map.empty, co_occurrence = Map.empty\<rparr>"

text \<open>\<^verbatim>\<open>class_name.split('.')[-1]\<close>: what follows the last dot.\<close>

definition simple_name :: "string \<Rightarrow> string" where
  "simple_name cn = rev (takeWhile (\<lambda>c. c \<noteq> CHR ''.'') (rev cn))"

text \<open>\<^verbatim>\<open>str.lower()\<close> on ASCII text.\<close>

definition str_lower :: "string \<Rightarrow> string" where
  "str_lower s = map to_lower s"

text \<open>
  \<^verbatim>\<open>_calculate_coverage_score\<close>. \<^verbatim>\<open>test_mentions\<close> is the set that \<^verbatim>\<open>_extract_test_mentions\<close>
  returns for the report. The division by \<^verbatim>\<open>len(candidates)\<close> is reached when the overlap
  is not empty; on an empty candidate list it would raise \<^verbatim>\<open>ZeroDivisionError\<close>.
\<close>

definition TestFailureAgent_calculate_coverage_score ::
  "TestFailureAgent \<Rightarrow> string \<Rightarrow> string list \<Rightarrow> string set \<Rightarrow> py_error + real" where
  "TestFailureAgent_calculate_coverage_score self cn cands test_mentions =
     (let sn = simple_name cn;
          score1 = (if class_to_tests self sn \<noteq> None then 0.3 else 0.0);
          co_tested = map_get (co_occurrence self) sn {};
          candidate_simple_names = set (map simple_name cands);
          overlap = co_tested \<inter> candidate_simple_names
      in if overlap \<noteq> {} \<and> length cands = 0 then Inl ZeroDivisionError
         else
           let score2 = (if overlap \<noteq> {}
                         then score1 + 0.4 * (real (card overlap) / real (length cands))
                         else score1);
               score3 = (if \<exists>test_mention \<in> test_mentions.
                               sublist (str_lower sn) (str_lower test_mention)
                         then score2 + 0.3 else score2)
           in Inr (min score3 1.0))"

text \<open>The agent of the module's standalone test (\<^verbatim>\<open>if __name__ == "__main__"\<close>).\<close>

definition standalone_test_agent :: TestFailureAgent where
  "standalone_test_agent =
     \<lparr>class_to_tests =
        [''World'' \<mapsto> [''WorldTest.java'', ''WorldIntegrationTest.java''],
         ''BcelWorld'' \<mapsto> [''BcelWorldTest.java''],
         ''Shadow'' \<mapsto> [''ShadowTest.java'', ''WorldTest.java'']],
      co_occurrence =
        [''World'' \<mapsto> {''BcelWorld'', ''Shadow'', ''TypeX''},
         ''BcelWorld'' \<mapsto> {''World'', ''BcelObjectType''},
         ''Shadow'' \<mapsto> {''World'', ''Advice''}]\<rparr>"

text \<open>
  The second factor as the specification words it: the fraction of the other candidates
  that co-occur with the class in test files.
\<close>

definition spec_fraction_of_other_candidates :: "TestFailureAgent \<Rightarrow> string \<Rightarrow> string list \<Rightarrow> real" where
  "spec_fraction_of_other_candidates self cn cands =
     (let others = filter (\<lambda>c. c \<noteq> cn) cands;
          co_tested = map_get (co_occurrence self) (simple_name cn) {}
      in real (length (filter (\<lambda>c. simple_name c \<in> co_tested) others)) / real (length others))"

section \<open>Judge agent: facts\<close>


lemma length_sort_reverse: "length (sort_reverse key xs) = length xs"
  by (simp add: sort_reverse_def)

lemma map_rank_enumerate:
  "map (\<lambda>(i, j). rank (j\<lparr>rank := i + 1\<rparr>)) (enumerate n js) = [Suc n..<Suc n + length js]"
proof (induction js arbitrary: n)
  case Nil
  show ?case by simp
next
  case (Cons j js)
  have "[Suc n..<Suc n + length (j # js)] = Suc n # [Suc (Suc n)..<Suc (Suc n) + length js]"
    by (subst upt_conv_Cons) simp_all
  with Cons.IH [of "Suc n"] show ?case by simp
qed

lemma map_rank_assign_ranks: "map rank (assign_ranks js) = [1..<Suc (length js)]"
proof -
  have "map rank (assign_ranks js) = map (\<lambda>(i, j). rank (j\<lparr>rank := i + 1\<rparr>)) (enumerate 0 js)"
    by (simp add: assign_ranks_def case_prod_beta comp_def)
  also have "\<dots> = [Suc 0..<Suc 0 + length js]"
    by (rule map_rank_enumerate)
  finally show ?thesis by simp
qed

lemma length_assign_ranks: "length (assign_ranks js) = length js"
  by (simp add: assign_ranks_def)

text \<open>
  Claim C9. For every judge call on N candidates, N \<ge> 0, the ranks in the output are
  exactly 1, 2, ..., N in this order, the output has N entries, and the empty candidate
  list gives the empty result with consensus rate 0 (the function is total: no branch
  raises).
\<close>

theorem C9_ranks_dense:
  "map rank (candidates (JudgeAgent_judge fa self cands st bm pt ts bt)) = [1..<Suc (length cands)]
   \<and> length (candidates (JudgeAgent_judge fa self cands st bm pt ts bt)) = length cands
   \<and> candidates (JudgeAgent_judge fa self [] st bm pt ts bt) = []
   \<and> consensus_rate (JudgeAgent_judge fa self [] st bm pt ts bt) = 0"
proof -
  let ?js = "sort_reverse final_score (map (judge_candidate fa self st bm pt ts) cands)"
  have c: "candidates (JudgeAgent_judge fa self cands st bm pt ts bt) = assign_ranks ?js"
    by (simp add: JudgeAgent_judge_def Let_def)
  have l: "length ?js = length cands"
    by (simp add: length_sort_reverse)
  have r: "map rank (assign_ranks ?js) = [1..<Suc (length cands)]"
    by (simp only: map_rank_assign_ranks l)
  have e: "candidates (JudgeAgent_judge fa self [] st bm pt ts bt) = []"
    by (simp add: JudgeAgent_judge_def Let_def sort_reverse_def assign_ranks_def)
  have z: "consensus_rate (JudgeAgent_judge fa self [] st bm pt ts bt) = 0"
    by (simp add: JudgeAgent_judge_def Let_def)
  show ?thesis
    using c l r e z by (simp add: length_assign_ranks)
qed

theorem C9_ranks_dense_witness:
  "map rank (candidates (JudgeAgent_judge exact_arith (JudgeAgent_init None) [''B'', ''A''] Map.empty Map.empty Map.empty Map.empty ''GENERIC'')) = [1, 2]"
  using C9_ranks_dense [of exact_arith "JudgeAgent_init None" "[''B'', ''A'']" Map.empty Map.empty Map.empty Map.empty "''GENERIC''"]
  by (simp add: upt_rec)








subsection \<open>Shape of the judge's output\<close>

lemma set_sort_reverse: "set (sort_reverse key xs) = set xs"
  by (simp add: sort_reverse_def)

lemma assign_ranks_elem:
  assumes "j \<in> set (assign_ranks js)"
  shows "\<exists>j0 \<in> set js. \<exists>r. j = j0\<lparr>rank := r\<rparr>"
proof -
  from assms obtain p where p: "p \<in> set (enumerate 0 js)" and j: "j = (snd p)\<lparr>rank := fst p + 1\<rparr>"
    by (auto simp: assign_ranks_def)
  from p have "fst p < length js" and "js ! fst p = snd p"
    by (simp_all add: in_set_enumerate_eq)
  then have "snd p \<in> set js"
    using nth_mem by metis
  with j show ?thesis by blast
qed

lemma judge_output_elem:
  assumes "j \<in> set (candidates (JudgeAgent_judge fa self cands st bm pt ts bt))"
  shows "\<exists>cn \<in> set cands. \<exists>r. j = (judge_candidate fa self st bm pt ts cn)\<lparr>rank := r\<rparr>"
proof -
  from assms have "j \<in> set (assign_ranks (sort_reverse final_score
      (map (judge_candidate fa self st bm pt ts) cands)))"
    by (simp add: JudgeAgent_judge_def Let_def)
  then obtain j0 r where "j0 \<in> set (sort_reverse final_score
      (map (judge_candidate fa self st bm pt ts) cands))" and j: "j = j0\<lparr>rank := r\<rparr>"
    using assign_ranks_elem by blast
  then have "j0 \<in> set (map (judge_candidate fa self st bm pt ts) cands)"
    by (simp only: set_sort_reverse)
  with j show ?thesis by auto
qed

subsection \<open>One candidate\<close>

lemma scores_of_gather:
  "map (\<lambda>(k, s). score s) (gather_agent_scores st bm pt ts cn) = signal_scores st bm pt ts cn"
  by (simp add: gather_agent_scores_def signal_scores_def)

lemma weighted_sum_of_gather:
  "fold (\<lambda>(signal, score_obj) acc.
           acc + dict_get (weights self) signal 0 * score score_obj * confidence score_obj)
        (gather_agent_scores st bm pt ts cn) 0
   = spec_weighted_sum self st bm pt ts cn"
  by (simp add: gather_agent_scores_def spec_weighted_sum_def)

lemma final_score_closed_form:
  "JudgeAgent_calculate_final_score self (gather_agent_scores st bm pt ts cn) cons confl
   = min (spec_weighted_sum self st bm pt ts cn * spec_multiplier cons confl) 1"
  unfolding JudgeAgent_calculate_final_score_def weighted_sum_of_gather
  by (simp add: Let_def spec_multiplier_def CONSENSUS_BONUS_def mult.commute)

lemma judge_candidate_fields:
  "class_name (judge_candidate fa self st bm pt ts cn) = cn"
  "consensus (judge_candidate fa self st bm pt ts cn)
     = fst (JudgeAgent_check_consensus fa (gather_agent_scores st bm pt ts cn))"
  "conflict_resolved (judge_candidate fa self st bm pt ts cn)
     = snd (JudgeAgent_check_consensus fa (gather_agent_scores st bm pt ts cn))"
  "final_score (judge_candidate fa self st bm pt ts cn)
     = min (spec_weighted_sum self st bm pt ts cn
            * spec_multiplier (consensus (judge_candidate fa self st bm pt ts cn))
                (conflict_resolved (judge_candidate fa self st bm pt ts cn))) 1"
  by (simp_all add: judge_candidate_def Let_def case_prod_beta final_score_closed_form)

lemma variance_nonneg:
  fixes xs :: "real list"
  shows "0 \<le> sum_list (map (\<lambda>x. (x - m)\<^sup>2) xs) / real (length xs)"
  by (intro divide_nonneg_nonneg sum_list_nonneg) auto

lemma thresholds_ordered: "double_0_2 < double_0_4"
  by (simp add: double_0_2_def double_0_4_def)

lemma check_consensus_closed_form:
  "JudgeAgent_check_consensus fa (gather_agent_scores st bm pt ts cn) =
     (let pos = filter (\<lambda>s. s > 0) (signal_scores st bm pt ts cn) in
      (pos \<noteq> [] \<and> computed_std_dev fa pos < double_0_2,
       pos \<noteq> [] \<and> computed_std_dev fa pos > double_0_4))"
proof -
  let ?pos = "filter (\<lambda>s. s > 0) (signal_scores st bm pt ts cn)"
  let ?sd = "computed_std_dev fa ?pos"
  have c: "JudgeAgent_check_consensus fa (gather_agent_scores st bm pt ts cn)
           = (if ?pos = [] then (False, False)
              else if ?sd < double_0_2 then (True, False)
              else if ?sd > double_0_4 then (False, True)
              else (False, False))"
    unfolding JudgeAgent_check_consensus_def scores_of_gather computed_std_dev_def Let_def
    by (rule refl)
  show ?thesis
    unfolding c Let_def using thresholds_ordered by auto
qed

lemma computed_std_dev_exact: "computed_std_dev exact_arith xs = population_stddev xs"
proof -
  let ?var = "sum_list (map (\<lambda>x. (x - mean xs)\<^sup>2) xs) / real (length xs)"
  have e: "(if ?var > 0 then sqrt ?var else 0) = sqrt ?var"
    using variance_nonneg [of "mean xs" xs] by (auto simp: not_less)
  have "computed_std_dev exact_arith xs = (if ?var > 0 then sqrt ?var else 0)"
    by (simp add: computed_std_dev_def exact_arith_def mean_def Let_def)
  with e show ?thesis
    by (simp only: population_stddev_def)
qed

lemmas judge_eval_defs =
  JudgeAgent_judge_def judge_candidate_def gather_agent_scores_def JudgeAgent_check_consensus_def
  JudgeAgent_calculate_final_score_def JudgeAgent_init_def JudgeAgent_normalize_weights_def
  DEFAULT_WEIGHTS_def CONSENSUS_BONUS_def sort_reverse_def assign_ranks_def dict_get_def
  map_get_def Let_def enumerate_eq_zip exact_arith_def double_0_2_def double_0_4_def


subsection \<open>Fusion (C1)\<close>

lemma dict_get_nonneg:
  assumes "list_all (\<lambda>w. 0 \<le> w) (map snd d)"
  shows "0 \<le> dict_get d k (0 :: real)"
proof (cases "map_of d k")
  case None
  then show ?thesis by (simp add: dict_get_def)
next
  case (Some v)
  then have "(k, v) \<in> set d" by (rule map_of_SomeD)
  moreover from assms have "\<forall>x \<in> set d. 0 \<le> snd x"
    by (simp add: list_all_iff)
  ultimately have "0 \<le> snd (k, v)" by blast
  then have "0 \<le> v" by simp
  with Some show ?thesis by (simp add: dict_get_def)
qed

lemma spec_weighted_sum_nonneg:
  assumes w: "list_all (\<lambda>w. 0 \<le> w) (map snd (weights self))"
    and s: "list_all (\<lambda>s. 0 \<le> s) (signal_scores st bm pt ts cn)"
  shows "0 \<le> spec_weighted_sum self st bm pt ts cn"
proof -
  from s have "0 \<le> map_get st cn 0" "0 \<le> map_get bm cn 0" "0 \<le> map_get pt cn 0"
    "0 \<le> map_get ts cn 0"
    by (simp_all add: signal_scores_def)
  moreover have "0 \<le> dict_get (weights self) k 0" for k
    using w by (rule dict_get_nonneg)
  ultimately show ?thesis
    unfolding spec_weighted_sum_def by (intro add_nonneg_nonneg mult_nonneg_nonneg) simp_all
qed

lemma spec_multiplier_pos: "0 < spec_multiplier cons confl"
  by (simp add: spec_multiplier_def)

lemma spec_weighted_sum_zero:
  assumes "list_all (\<lambda>s. s = 0) (signal_scores st bm pt ts cn)"
  shows "spec_weighted_sum self st bm pt ts cn = 0"
  using assms by (simp add: signal_scores_def spec_weighted_sum_def)

text \<open>
  Claim C1 as stated does not hold. A negative signal score gives a negative final score:
  the judge caps the fused score at 1 and has no lower clamp.
\<close>

theorem C1_counterexample:
  "map final_score (candidates (JudgeAgent_judge exact_arith (JudgeAgent_init None) [''A'']
        Map.empty [''A'' \<mapsto> - 1] Map.empty Map.empty ''GENERIC'')) = [- (6 / 25)]
   \<and> \<not> 0 \<le> hd (map final_score (candidates (JudgeAgent_judge exact_arith (JudgeAgent_init None) [''A'']
        Map.empty [''A'' \<mapsto> - 1] Map.empty Map.empty ''GENERIC'')))"
  by (simp add: judge_eval_defs)

text \<open>
  Claim C1, amended. For every judge call and every judgment \<open>j\<close> of its output, the final
  score is the weighted sum over the four signals of weight * score * confidence,
  multiplied by 1.10 when consensus holds and by 0.95 when conflictResolved holds, and
  then capped above at 1 (it never exceeds 1). When no weight and none of the candidate's
  four scores is negative, the final score lies in [0, 1] and is that product clamped to
  [0, 1]. A candidate whose four signal scores are all zero has final score 0.
\<close>

theorem C1_final_score_fusion:
  assumes "j \<in> set (candidates (JudgeAgent_judge fa self cands st bm pt ts bt))"
  shows "final_score j =
           min (spec_weighted_sum self st bm pt ts (class_name j)
                * spec_multiplier (consensus j) (conflict_resolved j)) 1
         \<and> final_score j \<le> 1
         \<and> (list_all (\<lambda>w. 0 \<le> w) (map snd (weights self))
              \<and> list_all (\<lambda>s. 0 \<le> s) (signal_scores st bm pt ts (class_name j))
            \<longrightarrow> 0 \<le> final_score j
                \<and> final_score j =
                    max 0 (min (spec_weighted_sum self st bm pt ts (class_name j)
                                * spec_multiplier (consensus j) (conflict_resolved j)) 1))
         \<and> (list_all (\<lambda>s. s = 0) (signal_scores st bm pt ts (class_name j))
            \<longrightarrow> final_score j = 0)"
proof -
  from assms obtain cn r where j: "j = (judge_candidate fa self st bm pt ts cn)\<lparr>rank := r\<rparr>"
    using judge_output_elem by blast
  let ?raw = "spec_weighted_sum self st bm pt ts (class_name j)
              * spec_multiplier (consensus j) (conflict_resolved j)"
  have cn: "class_name j = cn"
    by (simp add: j judge_candidate_fields(1))
  have f: "final_score j = min ?raw 1"
    using judge_candidate_fields(4) [of fa self st bm pt ts cn]
    by (simp add: j judge_candidate_fields(1))
  have le: "final_score j \<le> 1"
    by (simp add: f)
  have nonneg: "0 \<le> final_score j \<and> final_score j = max 0 (min ?raw 1)"
    if "list_all (\<lambda>w. 0 \<le> w) (map snd (weights self))
        \<and> list_all (\<lambda>s. 0 \<le> s) (signal_scores st bm pt ts (class_name j))"
  proof -
    from that have "0 \<le> spec_weighted_sum self st bm pt ts (class_name j)"
      by (simp add: spec_weighted_sum_nonneg)
    then have "0 \<le> ?raw"
      using spec_multiplier_pos [of "consensus j" "conflict_resolved j"] by simp
    then show ?thesis by (simp add: f)
  qed
  have zero: "final_score j = 0"
    if "list_all (\<lambda>s. s = 0) (signal_scores st bm pt ts (class_name j))"
    using that by (simp add: f spec_weighted_sum_zero)
  from f le nonneg zero show ?thesis by blast
qed

theorem C1_final_score_fusion_witness:
  "list_all (\<lambda>w. 0 \<le> w) (map snd (weights (JudgeAgent_init None)))
   \<and> list_all (\<lambda>s. 0 \<le> s) (signal_scores [''A'' \<mapsto> 1] [''A'' \<mapsto> 1] Map.empty Map.empty ''A'')
   \<and> list_all (\<lambda>j. class_name j = ''A'' \<and> 0 \<le> final_score j \<and> final_score j \<le> 1)
        (candidates (JudgeAgent_judge exact_arith (JudgeAgent_init None) [''A'']
           [''A'' \<mapsto> 1] [''A'' \<mapsto> 1] Map.empty Map.empty ''NPE''))"
proof -
  let ?out = "candidates (JudgeAgent_judge exact_arith (JudgeAgent_init None) [''A'']
           [''A'' \<mapsto> 1] [''A'' \<mapsto> 1] Map.empty Map.empty ''NPE'')"
  have w: "list_all (\<lambda>w. 0 \<le> w) (map snd (weights (JudgeAgent_init None)))"
    by (simp add: JudgeAgent_init_def JudgeAgent_normalize_weights_def DEFAULT_WEIGHTS_def)
  have s: "list_all (\<lambda>s. 0 \<le> s) (signal_scores [''A'' \<mapsto> 1] [''A'' \<mapsto> 1] Map.empty Map.empty ''A'')"
    by (simp add: signal_scores_def map_get_def)
  have "class_name j = ''A'' \<and> 0 \<le> final_score j \<and> final_score j \<le> 1" if "j \<in> set ?out" for j
  proof -
    from judge_output_elem [OF that] obtain cn r
      where "cn \<in> set [''A'']" and "j = (judge_candidate exact_arith (JudgeAgent_init None)
        [''A'' \<mapsto> 1] [''A'' \<mapsto> 1] Map.empty Map.empty cn)\<lparr>rank := r\<rparr>"
      by blast
    then have c: "class_name j = ''A''"
      by (simp add: judge_candidate_fields(1))
    have h: "0 \<le> final_score j"
      using C1_final_score_fusion [OF that] w s unfolding c by blast
    have l: "final_score j \<le> 1"
      using C1_final_score_fusion [OF that] by blast
    from c h l show ?thesis by blast
  qed
  then have "list_all (\<lambda>j. class_name j = ''A'' \<and> 0 \<le> final_score j \<and> final_score j \<le> 1) ?out"
    by (simp add: list_all_iff)
  with w s show ?thesis by blast
qed

subsection \<open>Consensus (C2)\<close>

text \<open>
  Claim C2 as stated does not hold. With the scores 1 and -1 the nonzero scores have
  population standard deviation 1, yet the judge reports consensus and no conflict: it
  looks at the strictly positive scores only, here the single score 1. Every operation
  on this input is exact in double arithmetic as well (1/1, 1 - 1, 0 ** 2, 0/1).
\<close>

theorem C2_counterexample:
  "map consensus (candidates (JudgeAgent_judge exact_arith (JudgeAgent_init None) [''A'']
        [''A'' \<mapsto> 1] [''A'' \<mapsto> - 1] Map.empty Map.empty ''GENERIC'')) = [True]
   \<and> map conflict_resolved (candidates (JudgeAgent_judge exact_arith (JudgeAgent_init None) [''A'']
        [''A'' \<mapsto> 1] [''A'' \<mapsto> - 1] Map.empty Map.empty ''GENERIC'')) = [False]
   \<and> population_stddev (filter (\<lambda>s. s \<noteq> 0)
        (signal_scores [''A'' \<mapsto> 1] [''A'' \<mapsto> - 1] Map.empty Map.empty ''A'')) = 1"
  by (simp add: judge_eval_defs population_stddev_def signal_scores_def mean_def)

text \<open>
  Claim C2, amended. For every judgment \<open>j\<close> of the judge's output, with \<open>pos\<close> the strictly
  positive ones among the candidate's four signal scores and \<open>sd\<close> the standard deviation
  that the code computes from \<open>pos\<close> with its float operations (the mean, the squared
  deviations, their mean, the square root; 0 when the computed variance is not positive):
  consensus is true if and only if \<open>pos\<close> is not empty and \<open>sd\<close> is below the double 0.2;
  conflictResolved is true if and only if \<open>pos\<close> is not empty and \<open>sd\<close> is above the double
  0.4 (a candidate with no positive score has both flags false); the two flags are never
  both true. This holds whatever the float operations round to. In exact arithmetic \<open>sd\<close>
  is the population standard deviation of \<open>pos\<close>; the rounded \<open>sd\<close> of doubles can fall on
  the other side of a threshold.
\<close>

theorem C2_consensus_flags:
  assumes "j \<in> set (candidates (JudgeAgent_judge fa self cands st bm pt ts bt))"
  shows "(consensus j \<longleftrightarrow>
            filter (\<lambda>s. 0 < s) (signal_scores st bm pt ts (class_name j)) \<noteq> []
            \<and> computed_std_dev fa (filter (\<lambda>s. 0 < s) (signal_scores st bm pt ts (class_name j)))
                < double_0_2)
         \<and> (conflict_resolved j \<longleftrightarrow>
            filter (\<lambda>s. 0 < s) (signal_scores st bm pt ts (class_name j)) \<noteq> []
            \<and> computed_std_dev fa (filter (\<lambda>s. 0 < s) (signal_scores st bm pt ts (class_name j)))
                > double_0_4)
         \<and> \<not> (consensus j \<and> conflict_resolved j)
         \<and> computed_std_dev exact_arith
              (filter (\<lambda>s. 0 < s) (signal_scores st bm pt ts (class_name j)))
            = population_stddev (filter (\<lambda>s. 0 < s) (signal_scores st bm pt ts (class_name j)))"
proof -
  from assms obtain cn r where j: "j = (judge_candidate fa self st bm pt ts cn)\<lparr>rank := r\<rparr>"
    using judge_output_elem by blast
  have cn: "class_name j = cn"
    by (simp add: j judge_candidate_fields(1))
  have c: "consensus j = fst (JudgeAgent_check_consensus fa (gather_agent_scores st bm pt ts cn))"
    by (simp add: j judge_candidate_fields(2))
  have d: "conflict_resolved j = snd (JudgeAgent_check_consensus fa (gather_agent_scores st bm pt ts cn))"
    by (simp add: j judge_candidate_fields(3))
  show ?thesis
    unfolding c d cn check_consensus_closed_form Let_def computed_std_dev_exact
    using thresholds_ordered by auto
qed

theorem C2_consensus_flags_witness:
  "list_all (\<lambda>j. consensus j \<and> \<not> conflict_resolved j)
     (candidates (JudgeAgent_judge exact_arith (JudgeAgent_init None) [''A'']
        [''A'' \<mapsto> 1] [''A'' \<mapsto> 1] Map.empty Map.empty ''NPE''))
   \<and> filter (\<lambda>s. 0 < s) (signal_scores [''A'' \<mapsto> 1] [''A'' \<mapsto> 1] Map.empty Map.empty ''A'') = [1, 1]
   \<and> computed_std_dev exact_arith [1, 1] < double_0_2"
proof -
  let ?out = "candidates (JudgeAgent_judge exact_arith (JudgeAgent_init None) [''A'']
        [''A'' \<mapsto> 1] [''A'' \<mapsto> 1] Map.empty Map.empty ''NPE'')"
  have p: "filter (\<lambda>s. 0 < s) (signal_scores [''A'' \<mapsto> 1] [''A'' \<mapsto> 1] Map.empty Map.empty ''A'') = [1, 1]"
    by (simp add: signal_scores_def map_get_def)
  have sd: "computed_std_dev exact_arith [1, 1] < double_0_2"
    by (simp add: computed_std_dev_def exact_arith_def double_0_2_def)
  have "consensus j \<and> \<not> conflict_resolved j" if "j \<in> set ?out" for j
  proof -
    from judge_output_elem [OF that] obtain cn r
      where "cn \<in> set [''A'']" and "j = (judge_candidate exact_arith (JudgeAgent_init None)
        [''A'' \<mapsto> 1] [''A'' \<mapsto> 1] Map.empty Map.empty cn)\<lparr>rank := r\<rparr>"
      by blast
    then have c: "class_name j = ''A''"
      by (simp add: judge_candidate_fields(1))
    have "consensus j"
      using C2_consensus_flags [OF that] p sd unfolding c by simp
    moreover have "\<not> (consensus j \<and> conflict_resolved j)"
      using C2_consensus_flags [OF that] by blast
    ultimately show ?thesis by blast
  qed
  then have "list_all (\<lambda>j. consensus j \<and> \<not> conflict_resolved j) ?out"
    by (simp add: list_all_iff)
  with p sd show ?thesis by blast
qed

subsection \<open>Order of the output (C3)\<close>

lemma sort_reverse_descending: "sorted_wrt (\<lambda>a b. key b \<le> key a) (sort_reverse key xs)"
proof -
  have "sorted (map key (sort_key key (rev xs)))"
    by (rule sorted_sort_key)
  then have "sorted_wrt (\<lambda>a b. key a \<le> key b) (sort_key key (rev xs))"
    by (simp only: sorted_map)
  then show ?thesis
    by (simp add: sort_reverse_def sorted_wrt_rev)
qed

lemma sort_reverse_stable:
  "filter (\<lambda>y. key y = k) (sort_reverse key xs) = filter (\<lambda>y. key y = k) xs"
proof -
  have "filter (\<lambda>y. key y = k) (sort_reverse key xs)
        = rev (filter (\<lambda>y. key y = k) (sort_key key (rev xs)))"
    by (simp add: sort_reverse_def rev_filter)
  also have "\<dots> = rev (filter (\<lambda>y. key y = k) (rev xs))"
    by (simp only: sort_key_stable)
  also have "\<dots> = filter (\<lambda>y. key y = k) xs"
    by (simp add: rev_filter)
  finally show ?thesis .
qed

lemma map_final_score_enumerate:
  "map final_score (map (\<lambda>(i, j). j\<lparr>rank := i + 1\<rparr>) (enumerate n js)) = map final_score js"
  by (induction js arbitrary: n) simp_all

lemma map_final_score_assign_ranks: "map final_score (assign_ranks js) = map final_score js"
  unfolding assign_ranks_def by (rule map_final_score_enumerate)

lemma map_class_name_filter_enumerate:
  "map class_name (filter (\<lambda>j. final_score j = s)
     (map (\<lambda>(i, j). j\<lparr>rank := i + 1\<rparr>) (enumerate n js)))
   = map class_name (filter (\<lambda>j. final_score j = s) js)"
  by (induction js arbitrary: n) simp_all

lemma map_class_name_filter_assign_ranks:
  "map class_name (filter (\<lambda>j. final_score j = s) (assign_ranks js))
   = map class_name (filter (\<lambda>j. final_score j = s) js)"
  unfolding assign_ranks_def by (rule map_class_name_filter_enumerate)

text \<open>
  Claim C3 as stated does not hold. Two candidates with equal final score come out in the
  order in which they were supplied, here \<open>B\<close> before \<open>A\<close>,
  although \<open>A\<close> is the lexicographically smaller name.
\<close>

theorem C3_counterexample:
  "map class_name (candidates (JudgeAgent_judge exact_arith (JudgeAgent_init None) [''B'', ''A'']
        Map.empty Map.empty Map.empty Map.empty ''GENERIC'')) = [''B'', ''A'']
   \<and> map final_score (candidates (JudgeAgent_judge exact_arith (JudgeAgent_init None) [''B'', ''A'']
        Map.empty Map.empty Map.empty Map.empty ''GENERIC'')) = [0, 0]
   \<and> ''A'' < ''B''"
  by (simp add: judge_eval_defs)

text \<open>
  Claim C3, amended. In the judge's output the candidates are ordered by final score
  descending, and the candidates with one and the same final score \<open>s\<close> appear in the
  order in which they were supplied (the sort is stable and compares nothing but the final
  score; names are not compared).
\<close>

theorem C3_sorted_descending_stable:
  "sorted_wrt (\<lambda>a b. final_score b \<le> final_score a)
     (candidates (JudgeAgent_judge fa self cands st bm pt ts bt))
   \<and> map class_name (filter (\<lambda>j. final_score j = s)
        (candidates (JudgeAgent_judge fa self cands st bm pt ts bt)))
     = filter (\<lambda>cn. final_score (judge_candidate fa self st bm pt ts cn) = s) cands"
proof -
  let ?js = "map (judge_candidate fa self st bm pt ts) cands"
  let ?out = "candidates (JudgeAgent_judge fa self cands st bm pt ts bt)"
  have out: "?out = assign_ranks (sort_reverse final_score ?js)"
    by (simp add: JudgeAgent_judge_def Let_def)
  have "sorted_wrt (\<lambda>a b. final_score b \<le> final_score a) (sort_reverse final_score ?js)"
    by (rule sort_reverse_descending)
  then have "sorted_wrt (\<lambda>a b. b \<le> a) (map final_score (sort_reverse final_score ?js))"
    by (simp add: sorted_wrt_map)
  then have "sorted_wrt (\<lambda>a b. b \<le> a) (map final_score ?out)"
    by (simp only: out map_final_score_assign_ranks)
  then have desc: "sorted_wrt (\<lambda>a b. final_score b \<le> final_score a) ?out"
    by (simp add: sorted_wrt_map)
  have "map class_name (filter (\<lambda>j. final_score j = s) ?out)
        = map class_name (filter (\<lambda>j. final_score j = s) (sort_reverse final_score ?js))"
    by (simp only: out map_class_name_filter_assign_ranks)
  also have "\<dots> = map class_name (filter (\<lambda>j. final_score j = s) ?js)"
    by (simp only: sort_reverse_stable)
  also have "\<dots> = map (\<lambda>cn. class_name (judge_candidate fa self st bm pt ts cn))
                      (filter (\<lambda>cn. final_score (judge_candidate fa self st bm pt ts cn) = s) cands)"
    by (simp add: filter_map comp_def)
  also have "\<dots> = filter (\<lambda>cn. final_score (judge_candidate fa self st bm pt ts cn) = s) cands"
    by (simp add: judge_candidate_fields(1))
  finally show ?thesis
    using desc by blast
qed

theorem C3_sorted_descending_stable_witness:
  "map class_name (filter (\<lambda>j. final_score j = 0)
        (candidates (JudgeAgent_judge exact_arith (JudgeAgent_init None) [''C'', ''B'', ''A'']
           Map.empty [''B'' \<mapsto> 1] Map.empty Map.empty ''GENERIC'')))
   = [''C'', ''A'']"
proof -
  have "final_score (judge_candidate exact_arith (JudgeAgent_init None) Map.empty [''B'' \<mapsto> 1]
          Map.empty Map.empty cn) = (if cn = ''B'' then 33 / 125 else 0)" for cn
    by (simp add: judge_eval_defs)
  then show ?thesis
    using C3_sorted_descending_stable [of exact_arith "JudgeAgent_init None" "[''C'', ''B'', ''A'']"
        Map.empty "[''B'' \<mapsto> 1]" Map.empty Map.empty "''GENERIC''" 0]
    by simp
qed

section \<open>Bug type classifier: facts\<close>

lemma example_scores:
  "map (\<lambda>(bt, patterns). (bt, fst (score_bug_type findall_in_example_report
          ''NullPointerException IOException'' patterns))) BUG_PATTERNS
   = [(''NPE'', 1), (''CCE'', 0), (''CME'', 0), (''AIOBE'', 0), (''IAE'', 0), (''ISE'', 0),
      (''IOE'', 1)]"
  by (simp add: BUG_PATTERNS_def score_bug_type_def findall_in_example_report_def BS_def)

lemma example_indicators:
  "map (\<lambda>(bt, patterns). (bt, snd (score_bug_type findall_in_example_report
          ''NullPointerException IOException'' patterns))) BUG_PATTERNS
   = [(''NPE'', [''NullPointerException'']), (''CCE'', []), (''CME'', []), (''AIOBE'', []),
      (''IAE'', []), (''ISE'', []), (''IOE'', [''IOException''])]"
  by (simp add: BUG_PATTERNS_def score_bug_type_def findall_in_example_report_def BS_def)

lemma fold_best_in_keys:
  "fst (fold (\<lambda>(k, v) (bk, bv). if v > bv then (k, v) else (bk, bv)) xs (kv :: string \<times> nat))
     \<in> insert (fst kv) (fst ` set xs)"
proof (induction xs arbitrary: kv)
  case Nil
  show ?case by simp
next
  case (Cons x xs)
  show ?case
    using Cons.IH [of "if snd x > snd kv then x else kv"]
    by (cases x; cases kv) (auto split: if_splits)
qed

lemma max_key_in_keys:
  assumes "max_key scores = Inr k"
  shows "k \<in> fst ` set scores"
proof (cases scores)
  case Nil
  with assms show ?thesis by (simp add: max_key_def)
next
  case (Cons kv rest)
  with assms fold_best_in_keys [of rest kv] show ?thesis
    by (auto simp: max_key_def)
qed

lemma max_key_total: "scores \<noteq> [] \<Longrightarrow> \<exists>k. max_key scores = Inr k"
  by (cases scores) (simp_all add: max_key_def)

text \<open>
  Whatever the matches are, \<^verbatim>\<open>classify\<close> raises nothing and returns the profile that the
  table holds for the category it returns: the confidence never changes the weights.
\<close>

lemma classify_returns_table_profile:
  "\<exists>c. BugTypeClassifier_classify findall bug_report = Inr c
       \<and> dict_lookup WEIGHT_PROFILES (BugClassification.bug_type c)
           = Inr (BugClassification.weights c)"
proof -
  let ?scores = "map (\<lambda>(bt, patterns). (bt, fst (score_bug_type findall bug_report patterns)))
                     BUG_PATTERNS"
  let ?inds = "map (\<lambda>(bt, patterns). (bt, snd (score_bug_type findall bug_report patterns)))
                   BUG_PATTERNS"
  have keys: "fst ` set ?scores = {''NPE'', ''CCE'', ''CME'', ''AIOBE'', ''IAE'', ''ISE'', ''IOE''}"
    by (simp add: BUG_PATTERNS_def)
  have ne: "?scores \<noteq> []"
    by (simp add: BUG_PATTERNS_def)
  then obtain best where best: "max_key ?scores = Inr best"
    using max_key_total by blast
  then have "best \<in> fst ` set ?scores"
    by (rule max_key_in_keys)
  then have bk: "best \<in> {''NPE'', ''CCE'', ''CME'', ''AIOBE'', ''IAE'', ''ISE'', ''IOE''}"
    by (simp only: keys)
  then obtain w where w: "dict_lookup WEIGHT_PROFILES best = Inr w"
    by (auto simp: dict_lookup_def WEIGHT_PROFILES_def)
  from bk obtain v where v: "dict_lookup ?scores best = Inr v"
    by (auto simp: dict_lookup_def BUG_PATTERNS_def)
  from bk obtain ind where ind: "dict_lookup ?inds best = Inr ind"
    by (auto simp: dict_lookup_def BUG_PATTERNS_def)
  obtain g where g: "dict_lookup WEIGHT_PROFILES ''GENERIC'' = Inr g"
    by (simp add: dict_lookup_def WEIGHT_PROFILES_def)
  show ?thesis
    unfolding BugTypeClassifier_classify_def Let_def
    by (simp add: best w v ind g)
qed

text \<open>
  Claim C4 on the code. On the report \<^verbatim>\<open>NullPointerException IOException\<close> the classifier
  returns the category NPE with confidence 1/2, below 0.8, and with the NPE profile of the
  table unchanged (bm25 0.25, pattern 0.25); the blend \<^verbatim>\<open>adjust_weights\<close> computes for this
  profile and confidence (bm25 0.275, pattern 0.225) is not what is returned.
\<close>

theorem C4_classify_returns_unblended_profile:
  "BugTypeClassifier_classify findall_in_example_report ''NullPointerException IOException''
     = Inr \<lparr>BugClassification.bug_type = ''NPE'', BugClassification.confidence = 1 / 2,
            BugClassification.weights = [(''stack_trace'', 0.35), (''bm25'', 0.25), (''pattern'', 0.25),
                       (''test'', 0.15)],
            indicators = [''NullPointerException'']\<rparr>
   \<and> BugTypeClassifier_adjust_weights
        [(''stack_trace'', 0.35), (''bm25'', 0.25), (''pattern'', 0.25), (''test'', 0.15)] (1 / 2)
     = Inr [(''stack_trace'', 0.35), (''bm25'', 0.275), (''pattern'', 0.225), (''test'', 0.15)]"
proof -
  have c: "BugTypeClassifier_classify findall_in_example_report ''NullPointerException IOException''
     = Inr \<lparr>BugClassification.bug_type = ''NPE'', BugClassification.confidence = 1 / 2,
            BugClassification.weights = [(''stack_trace'', 0.35), (''bm25'', 0.25), (''pattern'', 0.25),
                       (''test'', 0.15)],
            indicators = [''NullPointerException'']\<rparr>"
    unfolding BugTypeClassifier_classify_def example_scores example_indicators
    by (simp add: max_key_def dict_lookup_def WEIGHT_PROFILES_def)
  have a: "BugTypeClassifier_adjust_weights
        [(''stack_trace'', 0.35), (''bm25'', 0.25), (''pattern'', 0.25), (''test'', 0.15)] (1 / 2)
     = Inr [(''stack_trace'', 0.35), (''bm25'', 0.275), (''pattern'', 0.225), (''test'', 0.15)]"
    by (simp add: BugTypeClassifier_adjust_weights_def dict_lookup_def WEIGHT_PROFILES_def)
  from c a show ?thesis by blast
qed

section \<open>BM25 ranker: the index built by fit\<close>

lemma fold_doc_freqs:
  assumes "distinct ts"
  shows "fold (\<lambda>term df. df(term \<mapsto> map_get df term 0 + 1)) ts df
         = (\<lambda>t. if t \<in> set ts then Some (map_get df t 0 + 1) else df t)"
  using assms
proof (induction ts arbitrary: df)
  case Nil
  show ?case by simp
next
  case (Cons a ts)
  from Cons.prems have a: "a \<notin> set ts" and d: "distinct ts" by simp_all
  let ?df = "df(a \<mapsto> map_get df a 0 + 1)"
  have "fold (\<lambda>term df. df(term \<mapsto> map_get df term 0 + 1)) (a # ts) df
        = fold (\<lambda>term df. df(term \<mapsto> map_get df term 0 + 1)) ts ?df"
    by simp
  also have "\<dots> = (\<lambda>t. if t \<in> set ts then Some (map_get ?df t 0 + 1) else ?df t)"
    by (rule Cons.IH [OF d])
  also have "\<dots> = (\<lambda>t. if t \<in> set (a # ts) then Some (map_get df t 0 + 1) else df t)"
    using a by (auto simp: map_get_def fun_eq_iff)
  finally show ?case .
qed

lemma Counter_Some: "Counter ts t = Some tf \<Longrightarrow> t \<in> set ts \<and> 1 \<le> tf"
proof -
  assume a: "Counter ts t = Some tf"
  then have t: "t \<in> set ts" and tf: "tf = count_list ts t"
    by (auto simp: Counter_def split: if_splits)
  from t have "count_list ts t \<noteq> 0"
    by (simp add: count_list_0_iff)
  with t tf show ?thesis by simp
qed

lemma fit_document_fields:
  "doc_lens (fst (fit_document (d, dtext) (r, total_len))) = (doc_lens r)(d \<mapsto> length (tokenize dtext))"
  "doc_terms (fst (fit_document (d, dtext) (r, total_len)))
     = AList.update d (Counter (tokenize dtext)) (doc_terms r)"
  "doc_freqs (fst (fit_document (d, dtext) (r, total_len)))
     = (\<lambda>t. if t \<in> set (tokenize dtext) then Some (map_get (doc_freqs r) t 0 + 1)
             else doc_freqs r t)"
  "k1 (fst (fit_document (d, dtext) (r, total_len))) = k1 r"
  "bm25_b (fst (fit_document (d, dtext) (r, total_len))) = bm25_b r"
  "bm25_N (fst (fit_document (d, dtext) (r, total_len))) = bm25_N r"
  "snd (fit_document (d, dtext) (r, total_len)) = total_len + length (tokenize dtext)"
  using fold_doc_freqs [OF distinct_remdups, of "tokenize dtext" "doc_freqs r"]
  by (simp_all add: fit_document_def Let_def)

lemma fit_inv_step:
  assumes "fit_inv j (r, total_len)"
  shows "fit_inv (Suc j) (fit_document (d, dtext) (r, total_len))"
proof -
  let ?ts = "tokenize dtext"
  obtain r' tot' where fd: "fit_document (d, dtext) (r, total_len) = (r', tot')"
    by (cases "fit_document (d, dtext) (r, total_len)")
  have fields:
    "doc_lens r' = (doc_lens r)(d \<mapsto> length ?ts)"
    "doc_terms r' = AList.update d (Counter ?ts) (doc_terms r)"
    "doc_freqs r' = (\<lambda>t. if t \<in> set ?ts then Some (map_get (doc_freqs r) t 0 + 1)
                       else doc_freqs r t)"
    "tot' = total_len + length ?ts"
    using fit_document_fields(1,2,3,7) [of d dtext r total_len] by (simp_all add: fd)
  from assms have lens: "\<And>d' n. doc_lens r d' = Some n \<Longrightarrow> n \<le> total_len"
    and terms: "\<And>d' c t tf. map_of (doc_terms r) d' = Some c \<Longrightarrow> c t = Some tf \<Longrightarrow>
                  1 \<le> tf \<and> doc_freqs r t \<noteq> None \<and> (\<exists>n. doc_lens r d' = Some n \<and> 0 < n)"
    and freqs: "\<And>t n. doc_freqs r t = Some n \<Longrightarrow> 1 \<le> n \<and> n \<le> j"
    by (auto simp: fit_inv_def)
  have a: "n \<le> total_len + length ?ts \<and> 0 < Suc j" if "doc_lens r' d' = Some n" for d' n
    using that lens [of d' n] by (auto simp: fields split: if_splits)
  have b: "1 \<le> tf \<and> doc_freqs r' t \<noteq> None \<and> (\<exists>n. doc_lens r' d' = Some n \<and> 0 < n)"
    if c: "map_of (doc_terms r') d' = Some c" and t: "c t = Some tf" for d' c t tf
  proof (cases "d' = d")
    case True
    with c have "c = Counter ?ts"
      by (simp add: fields update_conv')
    with t have "t \<in> set ?ts" and "1 \<le> tf"
      using Counter_Some by blast+
    then show ?thesis
      using True by (auto simp: fields)
  next
    case False
    with c have "map_of (doc_terms r) d' = Some c"
      by (simp add: fields update_conv')
    from terms [OF this t] False show ?thesis
      by (auto simp: fields)
  qed
  have c: "1 \<le> n \<and> n \<le> Suc j" if "doc_freqs r' t = Some n" for t n
  proof (cases "t \<in> set ?ts")
    case True
    with that have n: "n = map_get (doc_freqs r) t 0 + 1"
      by (simp add: fields)
    have "map_get (doc_freqs r) t 0 \<le> j"
      using freqs [of t] by (cases "doc_freqs r t") (auto simp: map_get_def)
    with n show ?thesis by simp
  next
    case False
    with that have "doc_freqs r t = Some n"
      by (simp add: fields)
    from freqs [OF this] show ?thesis by simp
  qed
  from a b c show ?thesis
    unfolding fd fit_inv_def fields(4) by simp
qed

lemma fit_inv_fold:
  assumes "fit_inv j st"
  shows "fit_inv (j + length docs) (fold fit_document docs st)"
  using assms
proof (induction docs arbitrary: j st)
  case Nil
  then show ?case by simp
next
  case (Cons doc docs)
  obtain d dtext where doc: "doc = (d, dtext)" by (cases doc)
  obtain r total_len where st: "st = (r, total_len)" by (cases st)
  from Cons.prems have "fit_inv (Suc j) (fit_document doc st)"
    unfolding doc st by (rule fit_inv_step)
  from Cons.IH [OF this] show ?case by simp
qed

lemma fold_fit_params:
  "k1 (fst (fold fit_document docs st)) = k1 (fst st)
   \<and> bm25_b (fst (fold fit_document docs st)) = bm25_b (fst st)
   \<and> bm25_N (fst (fold fit_document docs st)) = bm25_N (fst st)"
proof (induction docs arbitrary: st)
  case Nil
  show ?case by simp
next
  case (Cons doc docs)
  obtain d dtext where doc: "doc = (d, dtext)" by (cases doc)
  obtain r total_len where st: "st = (r, total_len)" by (cases st)
  show ?case
    using Cons.IH [of "fit_document doc st"]
    by (simp add: doc st fit_document_fields)
qed

lemma fit_inv_init: "fit_inv 0 ((BM25Ranker_init kk bb)\<lparr>bm25_N := n\<rparr>, 0)"
  by (simp add: fit_inv_def BM25Ranker_init_def)

text \<open>What is known of a ranker that \<^verbatim>\<open>fit\<close> has built from a fresh one.\<close>

lemma fitted_ranker:
  fixes kk bb docs
  defines "r \<equiv> BM25Ranker_fit (BM25Ranker_init kk bb) docs"
  shows "k1 r = kk" and "bm25_b r = bb" and "bm25_N r = length docs"
    and "doc_lens r d = Some n \<Longrightarrow> 0 < n \<Longrightarrow> 0 < avgdl r"
    and "map_of (doc_terms r) d = Some c \<Longrightarrow> c t = Some tf \<Longrightarrow>
           1 \<le> tf \<and> doc_freqs r t \<noteq> None \<and> (\<exists>n. doc_lens r d = Some n \<and> 0 < n)"
    and "doc_freqs r t = Some m \<Longrightarrow> 1 \<le> m \<and> m \<le> bm25_N r"
proof -
  let ?init = "((BM25Ranker_init kk bb)\<lparr>bm25_N := length docs\<rparr>, 0 :: nat)"
  let ?st = "fold fit_document docs ?init"
  obtain r1 total_len where st: "?st = (r1, total_len)" by (cases ?st)
  have r: "r = r1\<lparr>avgdl := (if bm25_N r1 > 0 then real total_len / real (bm25_N r1) else 0)\<rparr>"
    by (simp add: r_def BM25Ranker_fit_def Let_def st)
  have inv: "fit_inv (length docs) (r1, total_len)"
    using fit_inv_fold [OF fit_inv_init, where docs = docs and kk1 = kk and bb1 = bb
        and n1 = "length docs"] by (simp add: st)
  have par: "k1 r1 = kk" "bm25_b r1 = bb" "bm25_N r1 = length docs"
    using fold_fit_params [of docs ?init] unfolding st by (simp_all add: BM25Ranker_init_def)
  show "k1 r = kk" and "bm25_b r = bb" and "bm25_N r = length docs"
    by (simp_all add: r par)
  show "0 < avgdl r" if "doc_lens r d = Some n" and "0 < n"
  proof -
    from that have "doc_lens r1 d = Some n" by (simp add: r)
    with inv have "n \<le> total_len" and "0 < length docs"
      by (auto simp: fit_inv_def)
    with \<open>0 < n\<close> show ?thesis by (simp add: r par)
  qed
  show "1 \<le> tf \<and> doc_freqs r t \<noteq> None \<and> (\<exists>n. doc_lens r d = Some n \<and> 0 < n)"
    if "map_of (doc_terms r) d = Some c" and "c t = Some tf"
  proof -
    from that have "map_of (doc_terms r1) d = Some c" by (simp add: r)
    with inv \<open>c t = Some tf\<close>
    have "1 \<le> tf \<and> doc_freqs r1 t \<noteq> None \<and> (\<exists>n. doc_lens r1 d = Some n \<and> 0 < n)"
      unfolding fit_inv_def by blast
    then show ?thesis by (simp add: r)
  qed
  show "1 \<le> m \<and> m \<le> bm25_N r" if "doc_freqs r t = Some m"
  proof -
    from that have "doc_freqs r1 t = Some m" by (simp add: r)
    with inv have "1 \<le> m \<and> m \<le> length docs"
      unfolding fit_inv_def by blast
    then show ?thesis by (simp add: r par)
  qed
qed


lemma fold_fit_doc_lens:
  "doc_lens (fst (fold fit_document docs (r, tot))) d
   = (case map_of (rev docs) d of
        None \<Rightarrow> doc_lens r d
      | Some dtext \<Rightarrow> Some (length (tokenize dtext)))"
proof (induction docs arbitrary: r tot)
  case Nil
  show ?case by simp
next
  case (Cons doc docs)
  obtain d0 t0 where doc: "doc = (d0, t0)" by (cases doc)
  obtain r' tot' where fd: "fit_document (d0, t0) (r, tot) = (r', tot')"
    by (cases "fit_document (d0, t0) (r, tot)")
  have l: "doc_lens r' = (doc_lens r)(d0 \<mapsto> length (tokenize t0))"
    using fit_document_fields(1) [of d0 t0 r tot] by (simp add: fd)
  show ?case
    using Cons.IH [of r' tot']
    by (simp add: doc fd l map_add_def split: option.splits)
qed

lemma fold_fit_dom_doc_freqs:
  "dom (doc_freqs (fst (fold fit_document docs (r, tot))))
   = dom (doc_freqs r) \<union> (\<Union>doc \<in> set docs. set (tokenize (snd doc)))"
proof (induction docs arbitrary: r tot)
  case Nil
  show ?case by simp
next
  case (Cons doc docs)
  obtain d0 t0 where doc: "doc = (d0, t0)" by (cases doc)
  obtain r' tot' where fd: "fit_document (d0, t0) (r, tot) = (r', tot')"
    by (cases "fit_document (d0, t0) (r, tot)")
  have "doc_freqs r' = (\<lambda>t. if t \<in> set (tokenize t0) then Some (map_get (doc_freqs r) t 0 + 1)
                            else doc_freqs r t)"
    using fit_document_fields(3) [of d0 t0 r tot] by (simp add: fd)
  then have "dom (doc_freqs r') = dom (doc_freqs r) \<union> set (tokenize t0)"
    by (auto simp: dom_def)
  with Cons.IH [of r' tot'] show ?case
    by (auto simp: doc fd)
qed

lemma update_new_key:
  "k \<notin> fst ` set al \<Longrightarrow> AList.update k v al = al @ [(k, v)]"
  by (induction al) auto

lemma fold_fit_doc_ids:
  assumes "distinct (map fst (doc_terms r) @ map fst docs)"
  shows "map fst (doc_terms (fst (fold fit_document docs (r, tot))))
         = map fst (doc_terms r) @ map fst docs"
  using assms
proof (induction docs arbitrary: r tot)
  case Nil
  show ?case by simp
next
  case (Cons doc docs)
  obtain d0 t0 where doc: "doc = (d0, t0)" by (cases doc)
  obtain r' tot' where fd: "fit_document (d0, t0) (r, tot) = (r', tot')"
    by (cases "fit_document (d0, t0) (r, tot)")
  from Cons.prems have new: "d0 \<notin> fst ` set (doc_terms r)"
    by (auto simp: doc)
  have "doc_terms r' = AList.update d0 (Counter (tokenize t0)) (doc_terms r)"
    using fit_document_fields(2) [of d0 t0 r tot] by (simp add: fd)
  with new have t: "doc_terms r' = doc_terms r @ [(d0, Counter (tokenize t0))]"
    by (simp add: update_new_key)
  from Cons.prems have "distinct (map fst (doc_terms r') @ map fst docs)"
    by (simp add: t doc)
  from Cons.IH [OF this, of tot'] show ?case
    by (simp add: doc fd t)
qed

text \<open>The index in terms of the documents it was built from.\<close>

lemma fitted_index:
  fixes kk bb docs
  defines "r \<equiv> BM25Ranker_fit (BM25Ranker_init kk bb) docs"
  shows "d \<notin> fst ` set docs \<Longrightarrow> doc_lens r d = None"
    and "distinct (map fst docs) \<Longrightarrow> (d, dtext) \<in> set docs \<Longrightarrow>
           doc_lens r d = Some (length (tokenize dtext))"
    and "list_all (\<lambda>doc. t \<notin> set (tokenize (snd doc))) docs \<Longrightarrow> doc_freqs r t = None"
    and "distinct (map fst docs) \<Longrightarrow> map fst (doc_terms r) = map fst docs"
proof -
  let ?init = "((BM25Ranker_init kk bb)\<lparr>bm25_N := length docs\<rparr>, 0 :: nat)"
  let ?st = "fold fit_document docs ?init"
  have lens: "doc_lens r = doc_lens (fst ?st)" and freqs: "doc_freqs r = doc_freqs (fst ?st)"
    and terms: "doc_terms r = doc_terms (fst ?st)"
    by (simp_all add: r_def BM25Ranker_fit_def Let_def case_prod_beta)
  have l: "doc_lens r d = map_option (\<lambda>x. length (tokenize x)) (map_of (rev docs) d)"
    unfolding lens fold_fit_doc_lens
    by (simp add: BM25Ranker_init_def split: option.splits)
  show "doc_lens r d = None" if "d \<notin> fst ` set docs"
  proof -
    from that have "map_of (rev docs) d = None"
      by (simp add: map_of_eq_None_iff)
    then show ?thesis by (simp add: l)
  qed
  show "doc_lens r d = Some (length (tokenize dtext))"
    if "distinct (map fst docs)" and "(d, dtext) \<in> set docs"
  proof -
    from that have "map_of (rev docs) d = Some dtext"
      by (intro map_of_is_SomeI) (simp_all add: rev_map [symmetric])
    then show ?thesis by (simp add: l)
  qed
  show "doc_freqs r t = None" if "list_all (\<lambda>doc. t \<notin> set (tokenize (snd doc))) docs"
  proof -
    from that have "t \<notin> (\<Union>doc \<in> set docs. set (tokenize (snd doc)))"
      by (auto simp: list_all_iff)
    then have "t \<notin> dom (doc_freqs r)"
      unfolding freqs fold_fit_dom_doc_freqs by (simp add: BM25Ranker_init_def)
    then show ?thesis by (simp add: domIff)
  qed
  show "map fst (doc_terms r) = map fst docs" if "distinct (map fst docs)"
    unfolding terms using fold_fit_doc_ids [of "fst ?init" docs "snd ?init"] that
    by (simp add: BM25Ranker_init_def)
qed


section \<open>BM25 ranker: scores on a fitted index\<close>

lemma idf_fitted:
  fixes kk bb docs
  defines "r \<equiv> BM25Ranker_fit (BM25Ranker_init kk bb) docs"
  shows "\<exists>i. BM25Ranker_idf r t = Inr i \<and> 0 \<le> i"
proof (cases "doc_freqs r t")
  case None
  then show ?thesis
    by (simp add: BM25Ranker_idf_def map_get_def)
next
  case (Some m)
  then have m: "1 \<le> m" "m \<le> bm25_N r"
    using fitted_ranker(6) [of kk bb docs t m] by (simp_all add: r_def)
  let ?x = "(real (bm25_N r) - real m + 0.5) / (real m + 0.5) + 1"
  from m have "0 \<le> (real (bm25_N r) - real m + 0.5) / (real m + 0.5)"
    by (intro divide_nonneg_pos) simp_all
  then have x: "1 \<le> ?x" by simp
  then have l: "0 \<le> ln ?x" by simp
  from x have nx: "\<not> ?x \<le> 0" by simp
  have "BM25Ranker_idf r t = (if ?x \<le> 0 then Inl ValueError else Inr (ln ?x))"
    using m Some by (simp add: BM25Ranker_idf_def map_get_def Let_def)
  with nx have "BM25Ranker_idf r t = Inr (ln ?x)"
    by (simp only: if_False)
  with l show ?thesis by blast
qed

lemma length_norm_nonneg:
  fixes bb l a :: real
  assumes "0 \<le> bb" "bb \<le> 1" "0 \<le> l" "0 < a"
  shows "0 \<le> 1 - bb + bb * l / a"
proof -
  from assms have "0 \<le> bb * l / a" by simp
  with assms show ?thesis by simp
qed

lemma term_score_value:
  assumes i: "BM25Ranker_idf r t = Inr i"
    and k: "0 \<le> k1 r" and b: "0 \<le> bm25_b r" "bm25_b r \<le> 1"
    and a: "0 < avgdl r" and tf: "1 \<le> tf"
  shows "term_score r len tf t
         = Inr (i * (real tf * (k1 r + 1)
                     / (real tf + k1 r * (1 - bm25_b r + bm25_b r * real len / avgdl r))))"
    and "0 < real tf + k1 r * (1 - bm25_b r + bm25_b r * real len / avgdl r)"
proof -
  have "0 \<le> 1 - bm25_b r + bm25_b r * real len / avgdl r"
    using b a by (intro length_norm_nonneg) simp_all
  with k have "0 \<le> k1 r * (1 - bm25_b r + bm25_b r * real len / avgdl r)"
    by (rule mult_nonneg_nonneg)
  with tf show d: "0 < real tf + k1 r * (1 - bm25_b r + bm25_b r * real len / avgdl r)"
    by simp
  with a i show "term_score r len tf t
         = Inr (i * (real tf * (k1 r + 1)
                     / (real tf + k1 r * (1 - bm25_b r + bm25_b r * real len / avgdl r))))"
    by (simp add: term_score_def Let_def)
qed



lemma score_loop_total:
  assumes tf: "\<And>t tf. c t = Some tf \<Longrightarrow> 1 \<le> tf"
    and i: "\<And>t. \<exists>i. BM25Ranker_idf r t = Inr i \<and> 0 \<le> i"
    and k: "0 \<le> k1 r" and b: "0 \<le> bm25_b r" "bm25_b r \<le> 1" and a: "0 < avgdl r"
  shows "\<exists>s. score_loop r c len ts acc = Inr s"
proof (induction ts arbitrary: acc)
  case Nil
  show ?case by simp
next
  case (Cons t ts)
  show ?case
  proof (cases "c t")
    case None
    with Cons.IH [of acc] show ?thesis by simp
  next
    case (Some n)
    from i obtain v where v: "BM25Ranker_idf r t = Inr v" by blast
    from tf [OF Some] have "1 \<le> n" .
    from term_score_value(1) [OF v k b a this, of len] obtain x
      where "term_score r len n t = Inr x" by blast
    with Some Cons.IH [of "acc + x"] show ?thesis by simp
  qed
qed

lemma score_terms_total:
  assumes "0 \<le> kk" "0 \<le> bb" "bb \<le> 1"
  shows "\<exists>s. score_terms (BM25Ranker_fit (BM25Ranker_init kk bb) docs) ts d = Inr s"
proof -
  let ?r = "BM25Ranker_fit (BM25Ranker_init kk bb) docs"
  show ?thesis
  proof (cases "map_get (doc_lens ?r) d 0 = 0")
    case True
    then show ?thesis by (simp add: score_terms_def)
  next
    case False
    then obtain n where n: "doc_lens ?r d = Some n" "0 < n"
      by (cases "doc_lens ?r d") (auto simp: map_get_def)
    then have a: "0 < avgdl ?r"
      by (rule fitted_ranker(4))
    have par: "0 \<le> k1 ?r" "0 \<le> bm25_b ?r" "bm25_b ?r \<le> 1"
      using assms by (simp_all add: fitted_ranker(1,2))
    have tf: "1 \<le> tf" if "dict_get (doc_terms ?r) d Map.empty t = Some tf" for t tf
    proof (cases "map_of (doc_terms ?r) d")
      case None
      with that show ?thesis by (simp add: dict_get_def)
    next
      case (Some c)
      with that have "c t = Some tf" by (simp add: dict_get_def)
      with fitted_ranker(5) [OF Some] show ?thesis by blast
    qed
    have "\<exists>s. score_loop ?r (dict_get (doc_terms ?r) d Map.empty) (map_get (doc_lens ?r) d 0) ts 0
               = Inr s"
      using tf idf_fitted par a by (rule score_loop_total)
    with False show ?thesis by (simp add: score_terms_def)
  qed
qed


lemma tokenize_examples:
  "tokenize ''foo'' = [''foo'']"
  "tokenize ''foo bar'' = [''foo'', ''bar'']"
  "tokenize ''foo foo bar'' = [''foo'', ''foo'', ''bar'']"
  "tokenize [] = []"
  by code_simp+

text \<open>
  Claim C10 as stated does not hold. \<^verbatim>\<open>fit\<close> sets \<^verbatim>\<open>N\<close> and \<^verbatim>\<open>avgdl\<close> from the documents of the
  current call and keeps \<^verbatim>\<open>doc_lens\<close>, \<^verbatim>\<open>doc_terms\<close> and \<^verbatim>\<open>doc_freqs\<close> of earlier calls. After
  \<^verbatim>\<open>fit({'a': {'text': 'foo'}})\<close> and then \<^verbatim>\<open>fit({})\<close> on a ranker with the default parameters,
  document \<open>a\<close> still has one token while \<^verbatim>\<open>avgdl\<close> is 0, and \<^verbatim>\<open>score('foo', 'a')\<close> divides by
  it. And after one \<^verbatim>\<open>fit\<close> of a ranker constructed with \<^verbatim>\<open>k1 = -1\<close> and \<^verbatim>\<open>b = 0\<close> the divisor
  \<^verbatim>\<open>tf + k1 * (1 - b + b * doc_len / avgdl)\<close> is 1 - 1 = 0.
\<close>

theorem C10_counterexample:
  "BM25Ranker_score
      (BM25Ranker_fit (BM25Ranker_fit (BM25Ranker_init BM25_K1 BM25_B) [(''a'', ''foo'')]) [])
      ''foo'' ''a'' = Inl ZeroDivisionError
   \<and> doc_lens
        (BM25Ranker_fit (BM25Ranker_fit (BM25Ranker_init BM25_K1 BM25_B) [(''a'', ''foo'')]) [])
        ''a'' = Some 1
   \<and> avgdl
        (BM25Ranker_fit (BM25Ranker_fit (BM25Ranker_init BM25_K1 BM25_B) [(''a'', ''foo'')]) [])
       = 0
   \<and> BM25Ranker_score (BM25Ranker_fit (BM25Ranker_init (- 1) 0) [(''a'', ''foo'')])
        ''foo'' ''a'' = Inl ZeroDivisionError"
proof -
  have refit:
    "BM25Ranker_fit (BM25Ranker_fit (BM25Ranker_init BM25_K1 BM25_B) [(''a'', ''foo'')]) []
     = \<lparr>k1 = 6 / 5, bm25_b = 3 / 4, doc_freqs = [''foo'' \<mapsto> 1], doc_lens = [''a'' \<mapsto> 1],
        avgdl = 0, bm25_N = 0, doc_terms = [(''a'', Counter [''foo''])]\<rparr>"
    by (simp add: BM25Ranker_fit_def BM25Ranker_init_def fit_document_def tokenize_examples
        BM25_K1_def BM25_B_def map_get_def Let_def)
  have neg:
    "BM25Ranker_fit (BM25Ranker_init (- 1) 0) [(''a'', ''foo'')]
     = \<lparr>k1 = - 1, bm25_b = 0, doc_freqs = [''foo'' \<mapsto> 1], doc_lens = [''a'' \<mapsto> 1],
        avgdl = 1, bm25_N = 1, doc_terms = [(''a'', Counter [''foo''])]\<rparr>"
    by (simp add: BM25Ranker_fit_def BM25Ranker_init_def fit_document_def tokenize_examples
        map_get_def Let_def)
  show ?thesis
    unfolding refit neg
    by (simp add: BM25Ranker_score_def score_terms_def tokenize_examples dict_get_def
        map_get_def Counter_def term_score_def BM25Ranker_idf_def Let_def)
qed

text \<open>
  Claim C10, amended. Let \<open>r\<close> be the ranker that one call of \<^verbatim>\<open>fit\<close> builds from a freshly
  constructed \<^verbatim>\<open>BM25Ranker\<close> whose parameters satisfy \<open>0 \<le> k1\<close> and \<open>0 \<le> b \<le> 1\<close> (the defaults
  1.2 and 0.75 do) on a document dictionary. Then every call of \<^verbatim>\<open>score\<close> on \<open>r\<close> returns a
  number: no division by zero and no other exception. For a document id that is not
  indexed and for an indexed document without tokens the score is 0, so the loop with
  the division by \<^verbatim>\<open>avgdl\<close> is not entered; and an indexed document with at least one token
  makes \<^verbatim>\<open>avgdl\<close> positive. In every state \<open>self\<close> of a ranker, fitted once, fitted again or
  not at all, \<^verbatim>\<open>score\<close> returns 0 for a document id without a stored length and for one with
  stored length 0.
\<close>

theorem C10_score_total:
  assumes "0 \<le> kk" and "0 \<le> bb" and "bb \<le> 1" and "distinct (map fst docs)"
  shows "(\<exists>s. BM25Ranker_score (BM25Ranker_fit (BM25Ranker_init kk bb) docs) q d = Inr s)
         \<and> (d \<notin> fst ` set docs \<longrightarrow>
              BM25Ranker_score (BM25Ranker_fit (BM25Ranker_init kk bb) docs) q d = Inr 0)
         \<and> ((d, dtext) \<in> set docs \<and> tokenize dtext = [] \<longrightarrow>
              BM25Ranker_score (BM25Ranker_fit (BM25Ranker_init kk bb) docs) q d = Inr 0)
         \<and> ((d, dtext) \<in> set docs \<and> tokenize dtext \<noteq> [] \<longrightarrow>
              0 < avgdl (BM25Ranker_fit (BM25Ranker_init kk bb) docs))
         \<and> (doc_lens self d = None \<or> doc_lens self d = Some 0 \<longrightarrow>
              BM25Ranker_score self q d = Inr 0)"
proof -
  let ?r = "BM25Ranker_fit (BM25Ranker_init kk bb) docs"
  have total: "\<exists>s. BM25Ranker_score ?r q d = Inr s"
    unfolding BM25Ranker_score_def using assms(1-3) by (rule score_terms_total)
  have unknown: "BM25Ranker_score ?r q d = Inr 0" if "d \<notin> fst ` set docs"
  proof -
    from that have "doc_lens ?r d = None" by (rule fitted_index(1))
    then show ?thesis
      by (simp add: BM25Ranker_score_def score_terms_def map_get_def)
  qed
  have empty: "BM25Ranker_score ?r q d = Inr 0" if "(d, dtext) \<in> set docs \<and> tokenize dtext = []"
  proof -
    from that assms(4) have "doc_lens ?r d = Some (length (tokenize dtext))"
      by (intro fitted_index(2)) simp_all
    with that show ?thesis
      by (simp add: BM25Ranker_score_def score_terms_def map_get_def)
  qed
  have pos: "0 < avgdl ?r" if "(d, dtext) \<in> set docs \<and> tokenize dtext \<noteq> []"
  proof -
    from that assms(4) have "doc_lens ?r d = Some (length (tokenize dtext))"
      by (intro fitted_index(2)) simp_all
    moreover from that have "0 < length (tokenize dtext)" by simp
    ultimately show ?thesis by (rule fitted_ranker(4))
  qed
  have any: "BM25Ranker_score self q d = Inr 0"
    if "doc_lens self d = None \<or> doc_lens self d = Some 0"
    using that by (auto simp: BM25Ranker_score_def score_terms_def map_get_def)
  from total unknown empty pos any show ?thesis by blast
qed

theorem C10_score_total_witness:
  "0 \<le> BM25_K1 \<and> 0 \<le> BM25_B \<and> BM25_B \<le> 1
   \<and> distinct (map fst [(''a'', ''foo bar''), (''e'', [])])
   \<and> ''z'' \<notin> fst ` set [(''a'', ''foo bar''), (''e'', [])]
   \<and> BM25Ranker_score (BM25Ranker_fit (BM25Ranker_init BM25_K1 BM25_B)
        [(''a'', ''foo bar''), (''e'', [])]) ''foo'' ''z'' = Inr 0
   \<and> tokenize [] = []
   \<and> BM25Ranker_score (BM25Ranker_fit (BM25Ranker_init BM25_K1 BM25_B)
        [(''a'', ''foo bar''), (''e'', [])]) ''foo'' ''e'' = Inr 0
   \<and> tokenize ''foo bar'' \<noteq> []
   \<and> 0 < avgdl (BM25Ranker_fit (BM25Ranker_init BM25_K1 BM25_B)
        [(''a'', ''foo bar''), (''e'', [])])
   \<and> doc_lens (BM25Ranker_init BM25_K1 BM25_B) ''a'' = None
   \<and> BM25Ranker_score (BM25Ranker_init BM25_K1 BM25_B) ''foo'' ''a'' = Inr 0"
proof -
  have p: "0 \<le> BM25_K1" "0 \<le> BM25_B" "BM25_B \<le> 1"
    by (simp_all add: BM25_K1_def BM25_B_def)
  have d: "distinct (map fst [(''a'', ''foo bar''), (''e'', [])])"
    by simp
  have n: "doc_lens (BM25Ranker_init BM25_K1 BM25_B) ''a'' = None"
    by (simp add: BM25Ranker_init_def)
  from C10_score_total [OF p d, where q = "''foo''" and d = "''z''"]
    C10_score_total [OF p d, where q = "''foo''" and d = "''e''" and dtext = "[]"]
    C10_score_total [OF p d, where q = "''foo''" and d = "''a''" and dtext = "''foo bar''"
      and self = "BM25Ranker_init BM25_K1 BM25_B"]
  show ?thesis
    using p n by (simp add: tokenize_examples)
qed



section \<open>BM25 ranker: ranking\<close>

lemma rank_loop_eq:
  assumes "\<And>d. \<exists>s. BM25Ranker_score r q d = Inr s"
  shows "rank_loop r q ds acc = Inr (acc @ positive_scores r q ds)"
proof (induction ds arbitrary: acc)
  case Nil
  show ?case by (simp add: positive_scores_def map_filter_simps)
next
  case (Cons d ds)
  from assms obtain s where s: "BM25Ranker_score r q d = Inr s" by blast
  have p: "positive_scores r q (d # ds)
           = (if s > 0 then [(d, s)] else []) @ positive_scores r q ds"
    by (simp add: positive_scores_def map_filter_simps s)
  show ?case
    using Cons.IH [of "if s > 0 then acc @ [(d, s)] else acc"]
    by (simp add: s p)
qed

lemma positive_scores_elem:
  assumes "(d, s) \<in> set (positive_scores r q ds)"
  shows "0 < s \<and> BM25Ranker_score r q d = Inr s"
  using assms
proof (induction ds)
  case Nil
  then show ?case by (simp add: positive_scores_def map_filter_simps)
next
  case (Cons x ds)
  then show ?case
    by (auto simp: positive_scores_def map_filter_simps split: sum.splits if_splits)
qed

lemma set_slice_to: "set (slice_to xs k) \<subseteq> set xs"
  by (auto simp: slice_to_def dest: in_set_takeD)

lemma prefix_slice_to: "prefix (slice_to xs k) xs"
  by (simp add: slice_to_def take_is_prefix)

lemma length_slice_to: "0 \<le> k \<Longrightarrow> length (slice_to xs k) \<le> nat k"
  by (simp add: slice_to_def)

lemma prefix_filter: "prefix xs ys \<Longrightarrow> prefix (filter P xs) (filter P ys)"
  by (auto simp: prefix_def)

lemma sorted_wrt_prefix: "prefix xs ys \<Longrightarrow> sorted_wrt P ys \<Longrightarrow> sorted_wrt P xs"
  by (auto simp: prefix_def sorted_wrt_append)

lemma sort_neg_descending:
  "sorted_wrt (\<lambda>x y. snd y \<le> snd x) (sort_key (\<lambda>x. - snd x) (xs :: ('a \<times> real) list))"
proof -
  have "sorted (map (\<lambda>x. - snd x) (sort_key (\<lambda>x. - snd x) xs))"
    by (rule sorted_sort_key)
  then show ?thesis
    by (simp add: sorted_map)
qed

lemma sort_neg_stable:
  "filter (\<lambda>x. snd x = s) (sort_key (\<lambda>x. - snd x) (xs :: ('a \<times> real) list))
   = filter (\<lambda>x. snd x = s) xs"
  using sort_key_stable [of "\<lambda>x. - snd x" "- s" xs] by simp


lemma fit_two_equal_documents:
  "BM25Ranker_fit (BM25Ranker_init BM25_K1 BM25_B) [(''b'', ''foo''), (''a'', ''foo'')]
   = \<lparr>k1 = 6 / 5, bm25_b = 3 / 4,
      doc_freqs = [''foo'' \<mapsto> 2],
      doc_lens = [''b'' \<mapsto> 1, ''a'' \<mapsto> 1],
      avgdl = 1, bm25_N = 2,
      doc_terms = [(''b'', Counter [''foo'']), (''a'', Counter [''foo''])]\<rparr>"
  by (simp add: BM25Ranker_fit_def BM25Ranker_init_def fit_document_def tokenize_examples
      BM25_K1_def BM25_B_def map_get_def Let_def fun_upd_twist numeral_2_eq_2)

lemma score_two_equal_documents:
  "BM25Ranker_score (BM25Ranker_fit (BM25Ranker_init BM25_K1 BM25_B)
      [(''b'', ''foo''), (''a'', ''foo'')]) ''foo'' ''b'' = Inr (ln (6 / 5))"
  "BM25Ranker_score (BM25Ranker_fit (BM25Ranker_init BM25_K1 BM25_B)
      [(''b'', ''foo''), (''a'', ''foo'')]) ''foo'' ''a'' = Inr (ln (6 / 5))"
  unfolding fit_two_equal_documents
  by (simp_all add: BM25Ranker_score_def score_terms_def tokenize_examples dict_get_def
      map_get_def Counter_def term_score_def BM25Ranker_idf_def Let_def)

text \<open>
  Claim C7 as stated does not hold. Two documents with the same text have the same score;
  \<^verbatim>\<open>rank\<close> returns them in the order in which they were indexed,
  here \<open>b\<close> before \<open>a\<close>, although \<open>a\<close> is the smaller
  id.
\<close>

theorem C7_counterexample:
  "BM25Ranker_rank (BM25Ranker_fit (BM25Ranker_init BM25_K1 BM25_B)
      [(''b'', ''foo''), (''a'', ''foo'')]) ''foo'' 10
   = Inr [(''b'', ln (6 / 5)), (''a'', ln (6 / 5))]
   \<and> ''a'' < ''b''"
proof -
  let ?r = "BM25Ranker_fit (BM25Ranker_init BM25_K1 BM25_B) [(''b'', ''foo''), (''a'', ''foo'')]"
  have ids: "map fst (doc_terms ?r) = [''b'', ''a'']"
    by (simp add: fit_two_equal_documents)
  have pos: "(0 :: real) < ln (6 / 5)"
    by simp
  have "rank_loop ?r ''foo'' [''b'', ''a''] [] = Inr [(''b'', ln (6 / 5)), (''a'', ln (6 / 5))]"
    using pos by (simp add: score_two_equal_documents)
  then show ?thesis
    by (simp add: BM25Ranker_rank_def ids slice_to_def)
qed


text \<open>
  Claim C7, amended. On an index that \<^verbatim>\<open>fit\<close> has built from a fresh ranker with
  \<open>0 \<le> k1\<close> and \<open>0 \<le> b \<le> 1\<close>, \<^verbatim>\<open>rank\<close> raises nothing for any query and any \<^verbatim>\<open>top_k\<close>. Every
  pair it returns is a document with its score, and the score is strictly positive; the
  result is sorted by score descending; for \<open>top_k \<ge> 0\<close> it has at most \<^verbatim>\<open>top_k\<close> entries; and
  the returned documents of one and the same score \<open>s\<close> are an initial segment of the
  documents of score \<open>s\<close> in the order in which they were indexed (the sort is stable on the
  score alone; document ids are not compared).
\<close>

theorem C7_rank_positive_sorted_stable:
  assumes "0 \<le> kk" and "0 \<le> bb" and "bb \<le> 1" and "distinct (map fst docs)"
    and "r = BM25Ranker_fit (BM25Ranker_init kk bb) docs"
  shows "\<exists>res. BM25Ranker_rank r q k = Inr res
           \<and> list_all (\<lambda>(d, s). 0 < s \<and> BM25Ranker_score r q d = Inr s) res
           \<and> sorted_wrt (\<lambda>x y. snd y \<le> snd x) res
           \<and> (0 \<le> k \<longrightarrow> length res \<le> nat k)
           \<and> prefix (filter (\<lambda>x. snd x = s) res)
                     (filter (\<lambda>x. snd x = s) (positive_scores r q (map fst docs)))"
proof -
  let ?all = "positive_scores r q (map fst docs)"
  let ?sorted = "sort_key (\<lambda>x. - snd x) ?all"
  let ?res = "slice_to ?sorted k"
  have total: "\<exists>s. BM25Ranker_score r q d = Inr s" for d
    unfolding BM25Ranker_score_def assms(5) using assms(1-3) by (rule score_terms_total)
  have ids: "map fst (doc_terms r) = map fst docs"
    unfolding assms(5) using assms(4) by (rule fitted_index(4))
  have "rank_loop r q (map fst docs) [] = Inr ([] @ ?all)"
    using total by (rule rank_loop_eq)
  then have res: "BM25Ranker_rank r q k = Inr ?res"
    by (simp add: BM25Ranker_rank_def ids)
  have "set ?res \<subseteq> set ?all"
    using set_slice_to [of ?sorted k] by simp
  then have "0 < snd x \<and> BM25Ranker_score r q (fst x) = Inr (snd x)" if "x \<in> set ?res" for x
    using that positive_scores_elem [of "fst x" "snd x" r q "map fst docs"] by auto
  then have elems: "list_all (\<lambda>(d, s). 0 < s \<and> BM25Ranker_score r q d = Inr s) ?res"
    by (simp add: list_all_iff case_prod_beta)
  have pre: "prefix ?res ?sorted"
    by (rule prefix_slice_to)
  have desc: "sorted_wrt (\<lambda>x y. snd y \<le> snd x) ?res"
    using pre sort_neg_descending by (rule sorted_wrt_prefix)
  have len: "length ?res \<le> nat k" if "0 \<le> k"
    using that by (rule length_slice_to)
  have "prefix (filter (\<lambda>x. snd x = s) ?res) (filter (\<lambda>x. snd x = s) ?sorted)"
    using pre by (rule prefix_filter)
  then have ties: "prefix (filter (\<lambda>x. snd x = s) ?res) (filter (\<lambda>x. snd x = s) ?all)"
    by (simp only: sort_neg_stable)
  from res elems desc len ties show ?thesis by blast
qed

theorem C7_rank_positive_sorted_stable_witness:
  "0 \<le> BM25_K1 \<and> 0 \<le> BM25_B \<and> BM25_B \<le> 1
   \<and> distinct (map fst [(''a'', ''foo bar''), (''e'', [])])
   \<and> (0 :: int) \<le> 1
   \<and> (\<exists>res. BM25Ranker_rank (BM25Ranker_fit (BM25Ranker_init BM25_K1 BM25_B)
                 [(''a'', ''foo bar''), (''e'', [])]) ''foo'' 1 = Inr res
          \<and> list_all (\<lambda>(d, s). 0 < s
                \<and> BM25Ranker_score (BM25Ranker_fit (BM25Ranker_init BM25_K1 BM25_B)
                     [(''a'', ''foo bar''), (''e'', [])]) ''foo'' d = Inr s) res
          \<and> sorted_wrt (\<lambda>x y. snd y \<le> snd x) res
          \<and> length res \<le> 1)"
proof -
  have p: "0 \<le> BM25_K1" "0 \<le> BM25_B" "BM25_B \<le> 1"
    by (simp_all add: BM25_K1_def BM25_B_def)
  have d: "distinct (map fst [(''a'', ''foo bar''), (''e'', [])])"
    by simp
  from C7_rank_positive_sorted_stable [OF p d refl, of "''foo''" 1 0]
  obtain res where "BM25Ranker_rank (BM25Ranker_fit (BM25Ranker_init BM25_K1 BM25_B)
                 [(''a'', ''foo bar''), (''e'', [])]) ''foo'' 1 = Inr res"
    and "list_all (\<lambda>(d, s). 0 < s
                \<and> BM25Ranker_score (BM25Ranker_fit (BM25Ranker_init BM25_K1 BM25_B)
                     [(''a'', ''foo bar''), (''e'', [])]) ''foo'' d = Inr s) res"
    and "sorted_wrt (\<lambda>x y. snd y \<le> snd x) res"
    and "length res \<le> 1"
    by auto
  with p d show ?thesis by auto
qed

section \<open>Test failure agent: facts\<close>

lemma simple_name_examples:
  "simple_name ''World'' = ''World''"
  "simple_name ''BcelWorld'' = ''BcelWorld''"
  "simple_name ''Shadow'' = ''Shadow''"
  "simple_name ''Advice'' = ''Advice''"
  "simple_name ''org.aspectj.weaver.World'' = ''World''"
  by (simp_all add: simple_name_def)

lemma mention_example: "sublist (str_lower ''World'') (str_lower ''WorldTest'')"
  by code_simp

lemma card_overlap_le:
  "card (co \<inter> set (map simple_name cands)) \<le> length cands"
proof -
  have "card (co \<inter> set (map simple_name cands)) \<le> card (set (map simple_name cands))"
    by (intro card_mono) simp_all
  also have "\<dots> \<le> length (map simple_name cands)"
    by (rule card_length)
  finally show ?thesis by simp
qed

lemma overlap_fraction_bounds:
  "0 \<le> real (card (co \<inter> set (map simple_name cands))) / real (length cands)"
  "real (card (co \<inter> set (map simple_name cands))) / real (length cands) \<le> 1"
proof -
  show "0 \<le> real (card (co \<inter> set (map simple_name cands))) / real (length cands)"
    by simp
  show "real (card (co \<inter> set (map simple_name cands))) / real (length cands) \<le> 1"
  proof (cases "cands = []")
    case True
    then show ?thesis by simp
  next
    case False
    then have "0 < real (length cands)" by simp
    moreover have "real (card (co \<inter> set (map simple_name cands))) \<le> real (length cands)"
      using card_overlap_le [of co cands] by simp
    ultimately show ?thesis by (simp add: divide_le_eq_1)
  qed
qed

text \<open>
  Claim C8 as stated does not hold. On the input of the module's standalone test the score
  of \<open>World\<close> is 0.3 + 0.4 * 2/4 + 0.3 = 0.8: two of the four candidates
  co-occur with it, and the divisor is the number of all candidates. With the fraction of
  the three other candidates, 2/3, the sum would be 13/15. And with no coverage data at
  all a class that a test-like token of the report mentions scores 0.3, not 0.
\<close>

theorem C8_counterexample:
  "TestFailureAgent_calculate_coverage_score standalone_test_agent ''World''
      [''World'', ''BcelWorld'', ''Shadow'', ''Advice''] {''WorldTest''} = Inr (4 / 5)
   \<and> 0.3 + 0.4 * spec_fraction_of_other_candidates standalone_test_agent ''World''
        [''World'', ''BcelWorld'', ''Shadow'', ''Advice''] + 0.3 = 13 / 15
   \<and> TestFailureAgent_calculate_coverage_score TestFailureAgent_init ''World'' [''World'']
        {''WorldTest''} = Inr (3 / 10)"
proof -
  have ov: "map_get (co_occurrence standalone_test_agent) (simple_name ''World'') {}
              \<inter> set (map simple_name [''World'', ''BcelWorld'', ''Shadow'', ''Advice''])
            = {''BcelWorld'', ''Shadow''}"
    by (auto simp: simple_name_examples standalone_test_agent_def map_get_def)
  have a: "TestFailureAgent_calculate_coverage_score standalone_test_agent ''World''
      [''World'', ''BcelWorld'', ''Shadow'', ''Advice''] {''WorldTest''} = Inr (4 / 5)"
    unfolding TestFailureAgent_calculate_coverage_score_def Let_def ov
    by (simp add: standalone_test_agent_def simple_name_examples(1) mention_example)
  have b: "0.3 + 0.4 * spec_fraction_of_other_candidates standalone_test_agent ''World''
        [''World'', ''BcelWorld'', ''Shadow'', ''Advice''] + 0.3 = 13 / 15"
    by (simp add: spec_fraction_of_other_candidates_def standalone_test_agent_def map_get_def
        simple_name_examples)
  have c: "TestFailureAgent_calculate_coverage_score TestFailureAgent_init ''World'' [''World'']
        {''WorldTest''} = Inr (3 / 10)"
    unfolding TestFailureAgent_calculate_coverage_score_def Let_def
    by (simp add: TestFailureAgent_init_def map_get_def simple_name_examples(1) mention_example)
  from a b c show ?thesis by blast
qed


text \<open>
  Claim C8, amended. For every agent state, candidate list and set of test-like tokens of
  the report, the coverage score of a class is returned without an error and is the sum
  of 0.3 if the class's simple name has test files, 0.4 times the number of distinct
  candidate simple names that co-occur with it divided by the number of all candidates
  supplied (the class itself included), and 0.3 if its lower-cased simple name is a
  substring of a lower-cased token. The sum lies in [0, 1], so the cap at 1.0 never
  changes it. For a class without coverage data (no test files and no co-occurrence
  entry) the score is 0.3 if a token mentions it and 0 otherwise.
\<close>

theorem C8_coverage_score:
  "TestFailureAgent_calculate_coverage_score self cn cands test_mentions
     = Inr ((if class_to_tests self (simple_name cn) \<noteq> None then 0.3 else 0)
            + 0.4 * (real (card (map_get (co_occurrence self) (simple_name cn) {}
                                  \<inter> set (map simple_name cands)))
                     / real (length cands))
            + (if \<exists>m \<in> test_mentions. sublist (str_lower (simple_name cn)) (str_lower m)
               then 0.3 else 0))
   \<and> (\<exists>s. TestFailureAgent_calculate_coverage_score self cn cands test_mentions = Inr s
            \<and> 0 \<le> s \<and> s \<le> 1)
   \<and> (class_to_tests self (simple_name cn) = None \<and> co_occurrence self (simple_name cn) = None
        \<longrightarrow> TestFailureAgent_calculate_coverage_score self cn cands test_mentions
             = Inr (if \<exists>m \<in> test_mentions. sublist (str_lower (simple_name cn)) (str_lower m)
                    then 0.3 else 0))"
proof -
  let ?sn = "simple_name cn"
  let ?ov = "map_get (co_occurrence self) ?sn {} \<inter> set (map simple_name cands)"
  let ?f = "real (card ?ov) / real (length cands)"
  let ?own = "(if class_to_tests self ?sn \<noteq> None then 0.3 else 0) :: real"
  let ?men = "(if \<exists>m \<in> test_mentions. sublist (str_lower ?sn) (str_lower m) then 0.3 else 0) :: real"
  have fin: "finite ?ov" by simp
  have guard: "\<not> (?ov \<noteq> {} \<and> length cands = 0)" by auto
  have f0: "0 \<le> ?f" and f1: "?f \<le> 1"
    by (rule overlap_fraction_bounds)+
  have fz: "?f = 0" if "?ov = {}"
    using that by simp
  have s0: "0 \<le> ?own + 0.4 * ?f + ?men"
    using f0 by simp
  have s1: "?own + 0.4 * ?f + ?men \<le> 1"
  proof -
    have "?own \<le> 0.3" and "?men \<le> 0.3" by simp_all
    moreover from f1 have "0.4 * ?f \<le> 0.4" by simp
    ultimately show ?thesis by linarith
  qed
  have "TestFailureAgent_calculate_coverage_score self cn cands test_mentions
        = Inr (min (?own + (if ?ov \<noteq> {} then 0.4 * ?f else 0) + ?men) 1)"
    using guard unfolding TestFailureAgent_calculate_coverage_score_def Let_def
    by (simp only: if_False) simp
  also have "(if ?ov \<noteq> {} then 0.4 * ?f else 0) = 0.4 * ?f"
    using fz by simp
  also have "min (?own + 0.4 * ?f + ?men) 1 = ?own + 0.4 * ?f + ?men"
    using s1 by simp
  finally have val: "TestFailureAgent_calculate_coverage_score self cn cands test_mentions
        = Inr (?own + 0.4 * ?f + ?men)" .
  have missing: "TestFailureAgent_calculate_coverage_score self cn cands test_mentions = Inr ?men"
    if "class_to_tests self ?sn = None \<and> co_occurrence self ?sn = None"
  proof -
    from that have "?ov = {}" by (simp add: map_get_def)
    then have "?f = 0" by (rule fz)
    with that val show ?thesis by simp
  qed
  from val s0 s1 missing show ?thesis by blast
qed

lemma no_mention_example: "\<not> sublist (str_lower ''Advice'') (str_lower ''WorldTest'')"
  by code_simp

theorem C8_coverage_score_witness:
  "class_to_tests standalone_test_agent (simple_name ''Advice'') = None
   \<and> co_occurrence standalone_test_agent (simple_name ''Advice'') = None
   \<and> TestFailureAgent_calculate_coverage_score standalone_test_agent ''Advice''
        [''World'', ''BcelWorld'', ''Shadow'', ''Advice''] {''WorldTest''} = Inr 0"
proof -
  have h: "class_to_tests standalone_test_agent (simple_name ''Advice'') = None
           \<and> co_occurrence standalone_test_agent (simple_name ''Advice'') = None"
    by (simp add: standalone_test_agent_def simple_name_examples)
  with C8_coverage_score [of standalone_test_agent "''Advice''"
      "[''World'', ''BcelWorld'', ''Shadow'', ''Advice'']" "{''WorldTest''}"]
  have "TestFailureAgent_calculate_coverage_score standalone_test_agent ''Advice''
          [''World'', ''BcelWorld'', ''Shadow'', ''Advice''] {''WorldTest''}
        = Inr (if \<exists>m \<in> {''WorldTest''}. sublist (str_lower (simple_name ''Advice'')) (str_lower m)
               then 0.3 else 0)"
    by blast
  then have "TestFailureAgent_calculate_coverage_score standalone_test_agent ''Advice''
          [''World'', ''BcelWorld'', ''Shadow'', ''Advice''] {''WorldTest''} = Inr 0"
    by (simp add: simple_name_examples no_mention_example)
  with h show ?thesis by blast
qed

end
